theory Spec2Isabelle
  imports Main "HOL-Library.Sublist"
begin

section \<open>Panel: the lockable base component\<close>

text \<open>
  The class \<open>Panel\<close> keeps the name of the lock holder in \<open>__whoLocked\<close> (the empty
  string means unlocked), the full-size flag, the \<open>isDestructed\<close> flag inherited from
  \<open>Component\<close>, and its container element, represented by its class list
  (\<open>None\<close> once the field was deleted).
\<close>

record panel =
  whoLocked :: string
  isFullSize :: bool
  isDestructed :: bool
  container :: "string list option"

definition isLocked :: "'a panel_scheme \<Rightarrow> bool" where
  "isLocked p = (whoLocked p \<noteq> '''')"

definition isLockedNotBy :: "'a panel_scheme \<Rightarrow> string \<Rightarrow> bool" where
  "isLockedNotBy p name = (isLocked p \<and> whoLocked p \<noteq> name)"

text \<open>
  \<open>lock(name)\<close> and \<open>unlock()\<close> return the boolean result and the updated panel.
  The argument of \<open>lock\<close> defaults to \<^verbatim>\<open>'any'\<close>.
\<close>

definition lockName :: "string option \<Rightarrow> string" where
  "lockName arg = (case arg of None \<Rightarrow> ''any'' | Some name \<Rightarrow> name)"

definition panel_lock :: "string option \<Rightarrow> 'a panel_scheme \<Rightarrow> bool \<times> 'a panel_scheme" where
  "panel_lock arg p =
     (if \<not> isLocked p then (True, p\<lparr>whoLocked := lockName arg\<rparr>) else (False, p))"

definition panel_unlock :: "'a panel_scheme \<Rightarrow> bool \<times> 'a panel_scheme" where
  "panel_unlock p =
     (if isLocked p then (True, p\<lparr>whoLocked := ''''\<rparr>) else (False, p))"

text \<open>
  \<open>Panel.destruct\<close>: the guard returns when \<open>isDestructed\<close> is false; otherwise the
  container is removed and deleted and \<open>super.destruct()\<close> runs. The body of
  \<open>Component.destruct\<close> is not part of the sources at hand, so it is a parameter.
\<close>

definition panel_destruct ::
  "('a panel_scheme \<Rightarrow> 'a panel_scheme) \<Rightarrow> 'a panel_scheme \<Rightarrow> 'a panel_scheme" where
  "panel_destruct super_destruct p =
     (if \<not> isDestructed p then p
      else super_destruct (p\<lparr>container := None\<rparr>))"

definition toggleFullSize :: "bool option \<Rightarrow> 'a panel_scheme \<Rightarrow> 'a panel_scheme" where
  "toggleFullSize arg p =
     (let isFull = (case arg of None \<Rightarrow> \<not> isFullSize p | Some b \<Rightarrow> b)
      in if isFull = isFullSize p then p else p\<lparr>isFullSize := isFull\<rparr>)"

section \<open>Values, callbacks and the trace\<close>

text \<open>
  JavaScript values that cross the interfaces of the editor. \<open>JNaN\<close> is the result of
  a failed \<open>parseInt\<close>.
\<close>

datatype jsval = Undefined | JNull | JBool bool | JStr string | JNum int | JNaN

text \<open>
  Event handlers and custom commands are supplied by the embedding page. They are data
  of the model: a labelled script of calls into the public interface of the editor,
  followed by the value the handler returns. An expression is evaluated on the state in
  which the call is made, so a handler can pass a value that differs each time.
  \<open>AThrowIfLonger k e\<close> throws \<open>e\<close> when the native value of the editor has more than
  \<open>k\<close> characters.
\<close>

datatype expr =
    Lit string
  | NativeValue
  | Cat expr expr

datatype action =
    ASetEditorValue "expr option"
  | AExecCommand string
  | ASetPayload jsval
  | AThrow string
  | AThrowIfLonger nat string

datatype callback = Callback (label: string) (body: "action list") (ret: jsval)

text \<open>
  A custom command is a plain function or an object with an \<open>exec\<close> field and optional
  \<open>hotkeys\<close> (a string or an array of strings).
\<close>

datatype hotkeys = HStr string | HArr "string list"

datatype command = Fn callback | Obj (exec: callback) (cmd_hotkeys: "hotkeys option")

text \<open>
  The trace records what an observer of the editor sees: events fired on the bus,
  handlers entered, and calls into the platform (focus, selection, native commands).
  It is instrumentation; no decision of the model reads it.
\<close>

datatype entry =
    Fired string "jsval list" jsval
  | Called string "jsval list"
  | Focus
  | SelectAll
  | NativeExec string jsval jsval
  | SelectionSave
  | SelectionRestore

text \<open>A call returns normally with a value or throws; both carry the state reached.\<close>

datatype ('a, 's) res = Ok 'a 's | Thrown string 's

section \<open>The editor instance\<close>

text \<open>
  The source element: \<open>element.value\<close> when it has one (a text field), and its
  \<open>innerHTML\<close>.
\<close>

record element =
  elem_value :: "string option"
  innerHTML :: string

text \<open>
  The fields of \<open>Jodit\<close> that the operations below read or write. \<open>editor\<close> is the
  \<open>innerHTML\<close> of the editable region, \<open>None\<close> while \<open>this.editor\<close> is unset;
  \<open>selection\<close> tells whether the \<open>Select\<close> object is present. The event bus is the
  table \<open>handlers\<close> (event name to handlers, in registration order) and the table
  \<open>hotkeyBindings\<close> of the handlers bound in the \<open>hotkey\<close> namespace. The platform
  (\<open>document.execCommand\<close>, \<open>selection.save\<close>), the helper \<open>normalizeKeyAliases\<close>
  and the replacement of \<open>INVISIBLE_SPACE_REG_EXP\<close> are not part of the sources at
  hand: they are fields, so every theorem holds for whatever they compute.
\<close>

record jodit = panel +
  readonly :: bool
  disabled :: bool
  saveModeInStorage :: bool
  commandToHotkeys :: "string \<Rightarrow> hotkeys option"
  wasReadOnly :: bool
  mode :: int
  editor :: "string option"
  editorClasses :: "string list"
  editorAttrs :: "string \<Rightarrow> string option"
  selection :: bool
  selectionLocked :: "nat list option"
  elem :: element
  elementIsContainer :: bool
  commands :: "string \<Rightarrow> command list option"
  callChangeCount :: nat
  handlers :: "string \<Rightarrow> callback list"
  hotkeyBindings :: "string \<Rightarrow> string option"
  storage :: "string \<Rightarrow> jsval option"
  platformExec :: "string \<Rightarrow> jsval \<Rightarrow> jsval \<Rightarrow> string option \<Rightarrow> (bool \<times> string option) option"
  platformSave :: "nat list"
  normalizeKeyAliases :: "string \<Rightarrow> string"
  stripInvisible :: "string \<Rightarrow> string"
  log :: "entry list"

type_synonym 'a result = "('a, jodit) res option"

text \<open>
  Sequencing: running out of fuel and a thrown error both end the sequence; the state
  reached so far travels with the error.
\<close>

definition bindR :: "'a result \<Rightarrow> ('a \<Rightarrow> jodit \<Rightarrow> 'b result) \<Rightarrow> 'b result" where
  "bindR m f =
     (case m of
        None \<Rightarrow> None
      | Some (Thrown e s) \<Rightarrow> Some (Thrown e s)
      | Some (Ok a s) \<Rightarrow> f a s)"

definition trace :: "entry \<Rightarrow> jodit \<Rightarrow> jodit" where
  "trace e s = s\<lparr>log := log s @ [e]\<rparr>"

definition SAFE_COUNT_CHANGE_CALL :: nat where
  "SAFE_COUNT_CHANGE_CALL = 10"

subsection \<open>Strings\<close>

text \<open>\<open>String.prototype.toLowerCase\<close>, on the ASCII letters.\<close>

definition lower_char :: "char \<Rightarrow> char" where
  "lower_char c =
     (case map_of (zip ''ABCDEFGHIJKLMNOPQRSTUVWXYZ'' ''abcdefghijklmnopqrstuvwxyz'') c of
        Some d \<Rightarrow> d
      | None \<Rightarrow> c)"

definition toLowerCase :: "string \<Rightarrow> string" where
  "toLowerCase cs = map lower_char cs"

text \<open>
  The replacement of
  \<^verbatim>\<open>/<span[^>]+id="jodit_selection_marker_[^>]+><\/span>/g\<close> by the empty string.
  Neither \<^verbatim>\<open>[^>]+\<close> can cross a \<^verbatim>\<open>>\<close>, so a match that starts at
  \<^verbatim>\<open><span\<close> spans the whole run of characters up to the next \<^verbatim>\<open>>\<close>, that run
  holds the \<open>id\<close> text with at least one character on each side of it, and
  \<^verbatim>\<open>></span>\<close> follows. \<open>marker_match\<close> gives the length of the match at the head
  of the string.
\<close>

definition marker_id :: string where
  "marker_id = ''id='' @ [CHR 0x22] @ ''jodit_selection_marker_''"

definition marker_match :: "string \<Rightarrow> nat option" where
  "marker_match t =
     (if take 5 t = ''<span'' then
        (let r = takeWhile (\<lambda>c. c \<noteq> CHR ''>'') (drop 5 t);
             after = dropWhile (\<lambda>c. c \<noteq> CHR ''>'') (drop 5 t)
         in if take 8 after = ''></span>'' \<and>
               list_ex (\<lambda>i. take (length marker_id) (drop i r) = marker_id)
                 [1 ..< length r - length marker_id]
            then Some (5 + length r + 8) else None)
      else None)"

function removeSelectionMarkers :: "string \<Rightarrow> string" where
  "removeSelectionMarkers [] = []"
| "removeSelectionMarkers (c # cs) =
     (case marker_match (c # cs) of
        Some k \<Rightarrow> removeSelectionMarkers (drop (k - 1) cs)
      | None \<Rightarrow> c # removeSelectionMarkers cs)"
  by pat_completeness auto
termination
  by (relation "measure length") auto

subsection \<open>Reading and writing the two values\<close>

definition getElementValue :: "jodit \<Rightarrow> string" where
  "getElementValue s =
     (case elem_value (elem s) of Some v \<Rightarrow> v | None \<Rightarrow> innerHTML (elem s))"

definition getNativeEditorValue :: "jodit \<Rightarrow> string" where
  "getNativeEditorValue s =
     (case editor s of Some html \<Rightarrow> html | None \<Rightarrow> getElementValue s)"

definition setNativeEditorValue :: "string \<Rightarrow> jodit \<Rightarrow> jodit" where
  "setNativeEditorValue v s =
     (case editor s of Some html \<Rightarrow> s\<lparr>editor := Some v\<rparr> | None \<Rightarrow> s)"

text \<open>The write of \<open>setElementValue\<close> into the source element.\<close>

definition writeElement :: "string \<Rightarrow> jodit \<Rightarrow> jodit" where
  "writeElement v s =
     (if \<not> elementIsContainer s then
        (case elem_value (elem s) of
           Some old \<Rightarrow> s\<lparr>elem := (elem s)\<lparr>elem_value := Some v\<rparr>\<rparr>
         | None \<Rightarrow> s\<lparr>elem := (elem s)\<lparr>innerHTML := v\<rparr>\<rparr>)
      else s)"

text \<open>
  The editor value before the \<open>afterGetValueFromEditor\<close> handlers see it: the native
  value without invisible spaces, without selection markers when asked, and with a lone
  \<^verbatim>\<open><br>\<close> collapsed to the empty string.
\<close>

definition cleanValue :: "bool \<Rightarrow> jodit \<Rightarrow> string" where
  "cleanValue removeMarkers s =
     (let value = stripInvisible s (getNativeEditorValue s);
          value = (if removeMarkers then removeSelectionMarkers value else value)
      in if value = ''<br>'' then [] else value)"

fun eval_expr :: "expr \<Rightarrow> jodit \<Rightarrow> string" where
  "eval_expr (Lit v) s = v"
| "eval_expr NativeValue s = getNativeEditorValue s"
| "eval_expr (Cat a b) s = eval_expr a s @ eval_expr b s"

definition isString :: "jsval \<Rightarrow> bool" where
  "isString v = (case v of JStr x \<Rightarrow> True | _ \<Rightarrow> False)"

definition callbackOf :: "command \<Rightarrow> callback" where
  "callbackOf c = (case c of Fn f \<Rightarrow> f | Obj f hk \<Rightarrow> f)"

text \<open>
  The native phase of \<open>execCommand\<close>: focus, then either the selection of the whole
  editor or the platform command, whose failure is swallowed and leaves \<open>result\<close> as
  it was. Without a \<open>Select\<close> object the first call throws.
\<close>

definition nativePhase :: "string \<Rightarrow> jsval \<Rightarrow> jsval \<Rightarrow> jsval \<Rightarrow> jodit \<Rightarrow> jsval result" where
  "nativePhase command showUI value result s =
     (if \<not> selection s then Some (Thrown ''TypeError'' s)
      else
        let s1 = trace Focus s in
        if command = ''selectall'' then Some (Ok result (trace SelectAll s1))
        else
          let s2 = trace (NativeExec command showUI value) s1 in
          (case platformExec s2 command showUI value (editor s2) of
             None \<Rightarrow> Some (Ok result s2)
           | Some (b, html) \<Rightarrow> Some (Ok (JBool b) (s2\<lparr>editor := html\<rparr>))))"

subsection \<open>Event dispatch\<close>

text \<open>
  A handler may call back into \<open>setEditorValue\<close> and \<open>execCommand\<close>. The operations
  that run handlers therefore take these two as the parameters \<open>sev\<close> and \<open>exc\<close>;
  the recursion is closed at the end of this section.
\<close>

type_synonym sev_fun = "jsval \<Rightarrow> jodit \<Rightarrow> jsval result"
type_synonym exc_fun = "string \<Rightarrow> jsval \<Rightarrow> jsval \<Rightarrow> jodit \<Rightarrow> jsval result"

text \<open>One call of a script; the payload is the object the handler may rewrite.\<close>

definition runAction :: "sev_fun \<Rightarrow> exc_fun \<Rightarrow> action \<Rightarrow> jsval \<Rightarrow> jodit \<Rightarrow> jsval result" where
  "runAction sev exc a payload s =
     (case a of
        ASetEditorValue e \<Rightarrow>
          bindR (sev (case e of None \<Rightarrow> Undefined | Some x \<Rightarrow> JStr (eval_expr x s)) s)
            (\<lambda>r s'. Some (Ok payload s'))
      | AExecCommand c \<Rightarrow>
          bindR (exc c (JBool False) JNull s) (\<lambda>r s'. Some (Ok payload s'))
      | ASetPayload v \<Rightarrow> Some (Ok v s)
      | AThrow e \<Rightarrow> Some (Thrown e s)
      | AThrowIfLonger k e \<Rightarrow>
          if k < length (getNativeEditorValue s) then Some (Thrown e s)
          else Some (Ok payload s))"

primrec runActions :: "sev_fun \<Rightarrow> exc_fun \<Rightarrow> action list \<Rightarrow> jsval \<Rightarrow> jodit \<Rightarrow> jsval result" where
  "runActions sev exc [] payload s = Some (Ok payload s)"
| "runActions sev exc (a # as) payload s =
     bindR (runAction sev exc a payload s) (\<lambda>payload' s'. runActions sev exc as payload' s')"

definition runCallback ::
  "sev_fun \<Rightarrow> exc_fun \<Rightarrow> callback \<Rightarrow> jsval list \<Rightarrow> jsval \<Rightarrow> jodit \<Rightarrow> (jsval \<times> jsval) result" where
  "runCallback sev exc cb args payload s =
     bindR (runActions sev exc (body cb) payload (trace (Called (label cb) args) s))
       (\<lambda>payload' s'. Some (Ok (ret cb, payload') s'))"

text \<open>
  Modelled from the spec: \<open>events.fire\<close> (the event bus is not part of the sources at
  hand). All handlers of the event run in registration order and the first result
  that is not \<open>undefined\<close> is returned. An object passed to the handlers so that they
  can rewrite it (\<open>data.mode\<close>, \<open>new_value.value\<close>) is the payload, returned with the
  result.
\<close>

primrec runHandlers ::
  "sev_fun \<Rightarrow> exc_fun \<Rightarrow> callback list \<Rightarrow> jsval list \<Rightarrow> jsval \<Rightarrow> jsval \<Rightarrow> jodit
     \<Rightarrow> (jsval \<times> jsval) result" where
  "runHandlers sev exc [] args acc payload s = Some (Ok (acc, payload) s)"
| "runHandlers sev exc (cb # cbs) args acc payload s =
     bindR (runCallback sev exc cb args payload s) (\<lambda>(r, payload') s'.
       runHandlers sev exc cbs args (if acc = Undefined then r else acc) payload' s')"

definition fire ::
  "sev_fun \<Rightarrow> exc_fun \<Rightarrow> string \<Rightarrow> jsval list \<Rightarrow> jsval \<Rightarrow> jodit \<Rightarrow> (jsval \<times> jsval) result" where
  "fire sev exc ev args payload s =
     runHandlers sev exc (handlers s ev) args Undefined payload (trace (Fired ev args payload) s)"

subsection \<open>Synchronization\<close>

definition getEditorValue :: "sev_fun \<Rightarrow> exc_fun \<Rightarrow> bool \<Rightarrow> jodit \<Rightarrow> jsval result" where
  "getEditorValue sev exc removeMarkers s =
     bindR (fire sev exc ''beforeGetValueFromEditor'' [] Undefined s) (\<lambda>(value, p) s1.
       if value \<noteq> Undefined then Some (Ok value s1)
       else
         bindR (fire sev exc ''afterGetValueFromEditor'' [] (JStr (cleanValue removeMarkers s1)) s1)
           (\<lambda>(r, new_value) s2. Some (Ok new_value s2)))"

definition setElementValue :: "sev_fun \<Rightarrow> exc_fun \<Rightarrow> jsval \<Rightarrow> jodit \<Rightarrow> jsval result" where
  "setElementValue sev exc value s =
     (if \<not> isString value \<and> value \<noteq> Undefined then Some (Thrown ''value must be string'' s)
      else
        let s1 = (case value of JStr v \<Rightarrow> writeElement v s | _ \<Rightarrow> s);
            value = (if value \<noteq> Undefined then value else JStr (getElementValue s))
        in bindR (getEditorValue sev exc True s1) (\<lambda>current s2.
             if value \<noteq> current then sev value s2 else Some (Ok Undefined s2)))"

text \<open>
  \<open>setEditorValue\<close>, in three parts. \<open>fireChange\<close> is the \<open>try/finally\<close> around the
  \<open>change\<close> event: \<open>__callChangeCount\<close> is reset on both ways out. \<open>syncValues\<close> is
  the end of the method, from the reading of \<open>old_value\<close> and \<open>new_value\<close> on.
  \<open>setEditorValue_body\<close> is the method, up to the write into the editor.
\<close>

definition fireChange :: "sev_fun \<Rightarrow> exc_fun \<Rightarrow> jsval \<Rightarrow> jsval \<Rightarrow> jodit \<Rightarrow> jsval result" where
  "fireChange sev exc new_value old_value s =
     (case fire sev exc ''change'' [new_value, old_value] Undefined s of
        None \<Rightarrow> None
      | Some (Ok r s') \<Rightarrow> Some (Ok Undefined (s'\<lparr>callChangeCount := 0\<rparr>))
      | Some (Thrown e s') \<Rightarrow> Some (Thrown e (s'\<lparr>callChangeCount := 0\<rparr>)))"

definition syncValues :: "sev_fun \<Rightarrow> exc_fun \<Rightarrow> jodit \<Rightarrow> jsval result" where
  "syncValues sev exc s =
     (let old_value = JStr (getElementValue s)
      in bindR (getEditorValue sev exc True s) (\<lambda>new_value s1.
           if old_value \<noteq> new_value \<and> callChangeCount s1 < SAFE_COUNT_CHANGE_CALL
           then
             bindR (setElementValue sev exc new_value s1) (\<lambda>r s2.
               fireChange sev exc new_value old_value
                 (s2\<lparr>callChangeCount := callChangeCount s2 + 1\<rparr>))
           else Some (Ok Undefined s1)))"

definition writeNative :: "jsval \<Rightarrow> string \<Rightarrow> jodit \<Rightarrow> jodit" where
  "writeNative value html s =
     (case value of
        JStr v \<Rightarrow> if html \<noteq> v then setNativeEditorValue v s else s
      | _ \<Rightarrow> s)"

definition setEditorValue_body :: "sev_fun \<Rightarrow> exc_fun \<Rightarrow> jsval \<Rightarrow> jodit \<Rightarrow> jsval result" where
  "setEditorValue_body sev exc value s =
     bindR (fire sev exc ''beforeSetValueToEditor'' [value] Undefined s) (\<lambda>(newValue, p) s1.
       if newValue = JBool False then Some (Ok Undefined s1)
       else
         let value = (if isString newValue then newValue else value) in
         (case editor s1 of
            None \<Rightarrow>
              if value \<noteq> Undefined then setElementValue sev exc value s1
              else Some (Ok Undefined s1)
          | Some html \<Rightarrow>
              if \<not> isString value \<and> value \<noteq> Undefined
              then Some (Thrown ''value must be string'' s1)
              else syncValues sev exc (writeNative value html s1)))"

subsection \<open>Command execution\<close>

text \<open>
  The loop of \<open>execCustomCommands\<close> reads \<open>this.commands[commandName]\<close> anew in every
  round, by index. Its first argument bounds the number of rounds.
\<close>

primrec customLoop ::
  "nat \<Rightarrow> sev_fun \<Rightarrow> exc_fun \<Rightarrow> string \<Rightarrow> jsval \<Rightarrow> jsval \<Rightarrow> nat \<Rightarrow> jsval \<Rightarrow> jodit \<Rightarrow> jsval result" where
  "customLoop 0 sev exc commandName second third i result s = None"
| "customLoop (Suc k) sev exc commandName second third i result s =
     (case commands s commandName of
        None \<Rightarrow> Some (Thrown ''TypeError'' s)
      | Some cs \<Rightarrow>
          if i < length cs then
            bindR (runCallback sev exc (callbackOf (cs ! i)) [JStr commandName, second, third]
                     Undefined s)
              (\<lambda>(resultCurrent, p) s'.
                 customLoop k sev exc commandName second third (i + 1)
                   (if resultCurrent \<noteq> Undefined then resultCurrent else result) s')
          else Some (Ok result s))"

definition execCustomCommands ::
  "nat \<Rightarrow> sev_fun \<Rightarrow> exc_fun \<Rightarrow> string \<Rightarrow> jsval \<Rightarrow> jsval \<Rightarrow> jodit \<Rightarrow> jsval result" where
  "execCustomCommands k sev exc commandName second third s =
     (let commandName = toLowerCase commandName in
      case commands s commandName of
        None \<Rightarrow> Some (Ok Undefined s)
      | Some cs \<Rightarrow> customLoop k sev exc commandName second third 0 Undefined s)"

definition execCommand_body ::
  "nat \<Rightarrow> sev_fun \<Rightarrow> exc_fun \<Rightarrow> string \<Rightarrow> jsval \<Rightarrow> jsval \<Rightarrow> jodit \<Rightarrow> jsval result" where
  "execCommand_body k sev exc command showUI value s =
     (if readonly s \<and> command \<noteq> ''selectall'' then Some (Ok Undefined s)
      else
        let command = toLowerCase command in
        bindR (fire sev exc ''beforeCommand'' [JStr command, showUI, value] Undefined s)
          (\<lambda>(result, p) s1.
        bindR (if result \<noteq> JBool False
               then execCustomCommands k sev exc command showUI value s1
               else Some (Ok result s1))
          (\<lambda>result s2.
        bindR (if result \<noteq> JBool False then nativePhase command showUI value result s2
               else Some (Ok result s2))
          (\<lambda>result s3.
        bindR (fire sev exc ''afterCommand'' [JStr command, showUI, value] Undefined s3)
          (\<lambda>r s4.
        bindR (sev Undefined s4)
          (\<lambda>r' s5. Some (Ok result s5)))))))"

subsection \<open>Closing the recursion\<close>

text \<open>
  \<open>setEditorValue n\<close> and \<open>execCommand n\<close> are the two operations with fuel \<open>n\<close>:
  every nested call of one of them, from a handler or from the body of the other, uses
  one unit, and \<open>None\<close> means that the fuel ran out. The fuel also bounds the rounds of
  the loop over the custom commands.
\<close>

fun setEditorValue :: "nat \<Rightarrow> jsval \<Rightarrow> jodit \<Rightarrow> jsval result"
and execCommand :: "nat \<Rightarrow> string \<Rightarrow> jsval \<Rightarrow> jsval \<Rightarrow> jodit \<Rightarrow> jsval result" where
  "setEditorValue 0 value s = None"
| "setEditorValue (Suc n) value s =
     setEditorValue_body (\<lambda>v t. setEditorValue n v t) (\<lambda>c u v t. execCommand n c u v t) value s"
| "execCommand 0 command showUI value s = None"
| "execCommand (Suc n) command showUI value s =
     execCommand_body n (\<lambda>v t. setEditorValue n v t) (\<lambda>c u v t. execCommand n c u v t)
       command showUI value s"

subsection \<open>The command registry\<close>

text \<open>
  Truthiness of a \<open>hotkeys\<close> value: the empty string is falsy, every array is truthy.
  \<open>firstTruthy a b\<close> is JavaScript's \<open>a || b\<close> on optional values.
\<close>

definition truthy :: "hotkeys option \<Rightarrow> bool" where
  "truthy h = (case h of None \<Rightarrow> False | Some (HStr k) \<Rightarrow> k \<noteq> [] | Some (HArr ks) \<Rightarrow> True)"

definition firstTruthy :: "hotkeys option \<Rightarrow> hotkeys option \<Rightarrow> hotkeys option" where
  "firstTruthy a b = (if truthy a then a else b)"

definition asArray :: "hotkeys \<Rightarrow> string list" where
  "asArray h = (case h of HStr k \<Rightarrow> [k] | HArr ks \<Rightarrow> ks)"

text \<open>
  Modelled from the spec: the binding made by \<open>events.off(shortcuts).on(shortcuts, ...)\<close>
  (the event bus is not part of the sources at hand). Each normalized key loses its
  earlier binding in the \<open>hotkey\<close> namespace and is bound to \<open>execCommand(commandName)\<close>.
\<close>

definition registerHotkeyToCommand :: "hotkeys \<Rightarrow> string \<Rightarrow> jodit \<Rightarrow> jodit" where
  "registerHotkeyToCommand hks commandName s =
     s\<lparr>hotkeyBindings :=
         fold (\<lambda>k b. b(k \<mapsto> commandName)) (map (normalizeKeyAliases s) (asArray hks))
           (hotkeyBindings s)\<rparr>"

definition registerCommand :: "string \<Rightarrow> command \<Rightarrow> jodit \<Rightarrow> jodit" where
  "registerCommand commandNameOriginal command s =
     (let commandName = toLowerCase commandNameOriginal;
          old = (case commands s commandName of None \<Rightarrow> [] | Some cs \<Rightarrow> cs);
          s1 = s\<lparr>commands := (commands s)(commandName \<mapsto> old @ [command])\<rparr>
      in case command of
           Fn f \<Rightarrow> s1
         | Obj f hk \<Rightarrow>
             (let hks = firstTruthy (commandToHotkeys s1 commandName)
                          (firstTruthy (commandToHotkeys s1 commandNameOriginal) hk)
              in if truthy hks then registerHotkeyToCommand (the hks) commandName s1 else s1))"


subsection \<open>Locking the editor\<close>

text \<open>
  \<open>Jodit.lock\<close> and \<open>Jodit.unlock\<close> call the methods of \<open>Panel\<close> (the classes
  between \<open>Jodit\<close> and \<open>Panel\<close> are taken not to override them) and then save or
  restore the selection and mark the editor. A missing \<open>Select\<close> object or editor
  makes the call throw.
\<close>

definition jodit_lock :: "string option \<Rightarrow> jodit \<Rightarrow> (bool, jodit) res" where
  "jodit_lock arg s =
     (case panel_lock (Some (lockName arg)) s of
        (True, s1) \<Rightarrow>
          if \<not> selection s1 then Thrown ''TypeError'' s1
          else
            let s2 = (trace SelectionSave s1)\<lparr>selectionLocked := Some (platformSave s1)\<rparr> in
            (case editor s2 of
               None \<Rightarrow> Thrown ''TypeError'' s2
             | Some html \<Rightarrow>
                 Ok True (s2\<lparr>editorClasses := List.insert ''jodit_disabled'' (editorClasses s2)\<rparr>))
      | (False, s1) \<Rightarrow> Ok False s1)"

definition jodit_unlock :: "jodit \<Rightarrow> (bool, jodit) res" where
  "jodit_unlock s =
     (case panel_unlock s of
        (True, s1) \<Rightarrow>
          (case editor s1 of
             None \<Rightarrow> Thrown ''TypeError'' s1
           | Some html \<Rightarrow>
               let s2 = s1\<lparr>editorClasses := removeAll ''jodit_disabled'' (editorClasses s1)\<rparr> in
               (case selectionLocked s2 of
                  None \<Rightarrow> Ok True s2
                | Some markers \<Rightarrow>
                    if \<not> selection s2 then Thrown ''TypeError'' s2
                    else Ok True (trace SelectionRestore s2)))
      | (False, s1) \<Rightarrow> Ok False s1)"

subsection \<open>The mode\<close>

text \<open>
  Modelled from the spec: the three mode constants (the module \<open>constants\<close> is not part
  of the sources at hand). The numbers are the ones that \<open>modeClasses[this.mode - 1]\<close>
  in \<open>setMode\<close> presupposes.
\<close>

definition MODE_WYSIWYG :: int where "MODE_WYSIWYG = 1"


text \<open>The argument of \<open>setMode\<close> is a number or a string.\<close>

datatype mode_arg = ModeNum int | ModeStr string

text \<open>
  \<open>Number.prototype.toString\<close> on an integer: its decimal digits, with the sign
  (JavaScript prints integers from \<open>10\<^sup>2\<^sup>1\<close> on in exponent form; the mode
  numbers are far below).
\<close>

definition digitChar :: "nat \<Rightarrow> char" where
  "digitChar d = ''0123456789'' ! d"

function natDigits :: "nat \<Rightarrow> string" where
  "natDigits n = (if n < 10 then [digitChar n] else natDigits (n div 10) @ [digitChar (n mod 10)])"
  by pat_completeness auto
termination
  by (relation "measure id") auto

declare natDigits.simps [simp del]

definition modeToString :: "mode_arg \<Rightarrow> string" where
  "modeToString a =
     (case a of
        ModeStr t \<Rightarrow> t
      | ModeNum i \<Rightarrow> if i < 0 then CHR ''-'' # natDigits (nat (- i)) else natDigits (nat i))"

text \<open>
  \<open>parseInt(t, 10)\<close>: leading white space is skipped (here the ASCII white space
  characters), a sign is read, and the longest run of decimal digits that follows is
  the number; without a digit the result is \<open>NaN\<close>. Whatever follows the digits is
  ignored.
\<close>

definition isWhiteSpace :: "char \<Rightarrow> bool" where
  "isWhiteSpace c = (c \<in> set [CHR 0x09, CHR 0x0A, CHR 0x0B, CHR 0x0C, CHR 0x0D, CHR 0x20])"

definition digitValue :: "char \<Rightarrow> nat option" where
  "digitValue c = map_of (zip ''0123456789'' [0, 1, 2, 3, 4, 5, 6, 7, 8, 9]) c"

definition isDigit :: "char \<Rightarrow> bool" where
  "isDigit c = (digitValue c \<noteq> None)"

definition digitsValue :: "string \<Rightarrow> nat" where
  "digitsValue ds = foldl (\<lambda>acc c. 10 * acc + the (digitValue c)) 0 ds"

definition parseInt :: "string \<Rightarrow> jsval" where
  "parseInt t =
     (let t1 = dropWhile isWhiteSpace t;
          negative = (take 1 t1 = ''-'');
          t2 = (if take 1 t1 = ''-'' \<or> take 1 t1 = ''+'' then drop 1 t1 else t1);
          ds = takeWhile isDigit t2
      in if ds = [] then JNaN
         else JNum (if negative then - int (digitsValue ds) else int (digitsValue ds)))"






subsection \<open>Read-only and disabled\<close>

definition getDisabled :: "jodit \<Rightarrow> bool" where
  "getDisabled s = disabled s"

definition getReadOnly :: "jodit \<Rightarrow> bool" where
  "getReadOnly s = readonly s"

definition boolToString :: "bool \<Rightarrow> string" where
  "boolToString b = (if b then ''true'' else ''false'')"

definition setReadOnly :: "nat \<Rightarrow> bool \<Rightarrow> jodit \<Rightarrow> jsval result" where
  "setReadOnly n isReadOnly s =
     (if wasReadOnly s = isReadOnly then Some (Ok Undefined s)
      else
        let s1 = s\<lparr>wasReadOnly := isReadOnly, readonly := isReadOnly\<rparr>;
            s2 = (case editor s1 of
                    None \<Rightarrow> s1
                  | Some html \<Rightarrow>
                      if isReadOnly
                      then s1\<lparr>editorAttrs := (editorAttrs s1)(''contenteditable'' := None)\<rparr>
                      else s1\<lparr>editorAttrs := (editorAttrs s1)(''contenteditable'' \<mapsto> ''true'')\<rparr>)
        in bindR (fire (setEditorValue n) (execCommand n) ''readonly'' [JBool isReadOnly] Undefined s2)
             (\<lambda>r s3. Some (Ok Undefined s3)))"

text \<open>
  \<open>setDisabled\<close>; \<open>markDisabled\<close> is its last block, run when the editor exists.
\<close>

definition markDisabled :: "nat \<Rightarrow> bool \<Rightarrow> jodit \<Rightarrow> jsval result" where
  "markDisabled n isDisabled s =
     (case editor s of
        None \<Rightarrow> Some (Ok Undefined s)
      | Some html \<Rightarrow>
          let s1 = s\<lparr>editorAttrs := (editorAttrs s)(''aria-disabled'' \<mapsto> boolToString isDisabled)\<rparr>
          in (case container s1 of
                None \<Rightarrow> Some (Thrown ''TypeError'' s1)
              | Some classes \<Rightarrow>
                  let classes' = (if isDisabled then List.insert ''jodit_disabled'' classes
                                  else removeAll ''jodit_disabled'' classes)
                  in bindR (fire (setEditorValue n) (execCommand n) ''disabled''
                              [JBool isDisabled] Undefined (s1\<lparr>container := Some classes'\<rparr>))
                       (\<lambda>r s2. Some (Ok Undefined s2))))"

definition setDisabled :: "nat \<Rightarrow> bool \<Rightarrow> jodit \<Rightarrow> jsval result" where
  "setDisabled n isDisabled s =
     (let s1 = s\<lparr>disabled := isDisabled\<rparr>;
          readOnly = wasReadOnly s1
      in bindR (setReadOnly n (isDisabled \<or> readOnly) s1) (\<lambda>r s2.
           markDisabled n isDisabled (s2\<lparr>wasReadOnly := readOnly\<rparr>)))"

section \<open>Notions used in the statements\<close>

text \<open>The state that a call reached, whether it returned or threw.\<close>

definition resState :: "('a, 's) res \<Rightarrow> 's" where
  "resState r = (case r of Ok a s \<Rightarrow> s | Thrown e s \<Rightarrow> s)"

text \<open>\<open>holds r P\<close>: if the call came to an end within its fuel, the state reached has \<open>P\<close>.\<close>

definition holds :: "'a result \<Rightarrow> (jodit \<Rightarrow> bool) \<Rightarrow> bool" where
  "holds r P = (case r of None \<Rightarrow> True | Some x \<Rightarrow> P (resState x))"

text \<open>
  \<open>frame s s'\<close>: \<open>s'\<close> differs from \<open>s\<close> at most in the editor content, the source
  element, the change counter and the trace, and the trace has only grown.
\<close>

definition frame :: "jodit \<Rightarrow> jodit \<Rightarrow> bool" where
  "frame s s' =
     (whoLocked s' = whoLocked s \<and> isFullSize s' = isFullSize s
      \<and> isDestructed s' = isDestructed s \<and> container s' = container s
      \<and> readonly s' = readonly s \<and> disabled s' = disabled s
      \<and> saveModeInStorage s' = saveModeInStorage s
      \<and> commandToHotkeys s' = commandToHotkeys s
      \<and> wasReadOnly s' = wasReadOnly s \<and> mode s' = mode s
      \<and> editorClasses s' = editorClasses s \<and> editorAttrs s' = editorAttrs s
      \<and> selection s' = selection s \<and> selectionLocked s' = selectionLocked s
      \<and> elementIsContainer s' = elementIsContainer s
      \<and> commands s' = commands s \<and> handlers s' = handlers s
      \<and> hotkeyBindings s' = hotkeyBindings s \<and> storage s' = storage s
      \<and> platformExec s' = platformExec s \<and> platformSave s' = platformSave s
      \<and> normalizeKeyAliases s' = normalizeKeyAliases s
      \<and> stripInvisible s' = stripInvisible s
      \<and> prefix (log s) (log s'))"

text \<open>The number of times the \<open>change\<close> event was fired, read off the trace.\<close>

definition isChange :: "entry \<Rightarrow> bool" where
  "isChange e = (case e of Fired ev args payload \<Rightarrow> ev = ''change'' | _ \<Rightarrow> False)"

definition changeFirings :: "jodit \<Rightarrow> nat" where
  "changeFirings s = length (filter isChange (log s))"

text \<open>An action that does not call into the editor.\<close>

definition isLocal :: "action \<Rightarrow> bool" where
  "isLocal a = (case a of ASetPayload v \<Rightarrow> True | AThrow e \<Rightarrow> True | _ \<Rightarrow> False)"

text \<open>\<open>returns r Q\<close>: if the call returned normally, its value and final state have \<open>Q\<close>.\<close>

definition returns :: "'a result \<Rightarrow> ('a \<Rightarrow> jodit \<Rightarrow> bool) \<Rightarrow> bool" where
  "returns r Q = (\<forall>a t. r = Some (Ok a t) \<longrightarrow> Q a t)"

text \<open>The trace that a call reached, if it came to an end.\<close>

definition traceOf :: "'a result \<Rightarrow> entry list option" where
  "traceOf r = (case r of None \<Rightarrow> None | Some x \<Rightarrow> Some (log (resState x)))"



text \<open>The value that a call returned, if it returned normally.\<close>

definition valueOf :: "'a result \<Rightarrow> 'a option" where
  "valueOf r = (case r of Some (Ok a s) \<Rightarrow> Some a | _ \<Rightarrow> None)"

text \<open>All handlers of an event are scripts that do not call into the editor.\<close>

definition localHandlers :: "jodit \<Rightarrow> string \<Rightarrow> bool" where
  "localHandlers s ev = list_all (\<lambda>cb. list_all isLocal (body cb)) (handlers s ev)"

text \<open>
  No handler is registered for the three events through which \<open>setEditorValue\<close> and
  \<open>getEditorValue\<close> let the page override a value.
\<close>

definition noValueHandlers :: "jodit \<Rightarrow> bool" where
  "noValueHandlers s =
     (handlers s ''beforeSetValueToEditor'' = []
      \<and> handlers s ''beforeGetValueFromEditor'' = []
      \<and> handlers s ''afterGetValueFromEditor'' = [])"



definition lastDefined :: "jsval list \<Rightarrow> jsval" where
  "lastDefined vs = foldl (\<lambda>r x. if x \<noteq> Undefined then x else r) Undefined vs"

text \<open>The number of times the handler with a given label was entered, read off the trace.\<close>

definition isCallOf :: "string \<Rightarrow> entry \<Rightarrow> bool" where
  "isCallOf l e = (case e of Called l' args \<Rightarrow> l' = l | _ \<Rightarrow> False)"

definition calls :: "string \<Rightarrow> jodit \<Rightarrow> nat" where
  "calls l s = length (filter (isCallOf l) (log s))"

text \<open>
  A string without \<^verbatim>\<open><\<close>, and an instance on which the two value helpers do
  nothing to such strings and the source element, a text field, holds no more
  characters than the editor.
\<close>

definition plainText :: "string \<Rightarrow> bool" where
  "plainText t = (CHR ''<'' \<notin> set t)"

definition elementLags :: "jodit \<Rightarrow> string \<Rightarrow> bool" where
  "elementLags s e =
     (editor s = Some e \<and> plainText e \<and> \<not> elementIsContainer s
      \<and> (\<exists>L. elem_value (elem s) = Some L \<and> length L \<le> length e)
      \<and> (\<forall>t. stripInvisible s t = t))"

section \<open>Concrete instances\<close>

text \<open>
  The fields as the initializers of \<open>Panel\<close> and \<open>Jodit\<close> and the constructor leave
  them on an empty text field: unlocked, mode \<open>MODE_WYSIWYG\<close>, no commands, no
  handlers, counter zero. The platform of this instance rejects every native command
  and the two string helpers are the identity.
\<close>

definition freshPanel :: panel where
  "freshPanel = \<lparr>whoLocked = [], isFullSize = False, isDestructed = False, container = Some []\<rparr>"

definition freshEditor :: jodit where
  "freshEditor =
     \<lparr>whoLocked = [], isFullSize = False, isDestructed = False,
      container = Some [''jodit_container''],
      readonly = False, disabled = False, saveModeInStorage = False,
      commandToHotkeys = (\<lambda>c. None),
      wasReadOnly = False, mode = MODE_WYSIWYG,
      editor = Some [], editorClasses = [''jodit_wysiwyg''],
      editorAttrs = [''contenteditable'' \<mapsto> ''true''],
      selection = True, selectionLocked = None,
      elem = \<lparr>elem_value = Some [], innerHTML = []\<rparr>, elementIsContainer = False,
      commands = (\<lambda>c. None), callChangeCount = 0,
      handlers = (\<lambda>ev. []), hotkeyBindings = (\<lambda>k. None), storage = (\<lambda>k. None),
      platformExec = (\<lambda>c u v h. None), platformSave = [],
      normalizeKeyAliases = (\<lambda>k. k), stripInvisible = (\<lambda>t. t),
      log = []\<rparr>"




text \<open>
  An instance whose \<open>change\<close> handler calls \<open>setEditorValue\<close> with the editor content
  followed by one more \<^verbatim>\<open>x\<close>: a different value each time. In the second instance
  the handler throws after that call.
\<close>

definition loopEditor :: jodit where
  "loopEditor =
     freshEditor\<lparr>
       handlers := (\<lambda>ev. if ev = ''change''
                         then [Callback ''again''
                                 [ASetEditorValue (Some (Cat NativeValue (Lit ''x'')))] Undefined]
                         else [])\<rparr>"

definition throwingLoopEditor :: jodit where
  "throwingLoopEditor =
     freshEditor\<lparr>
       handlers := (\<lambda>ev. if ev = ''change''
                         then [Callback ''again''
                                 [ASetEditorValue (Some (Cat NativeValue (Lit ''x''))),
                                  AThrow ''stop''] Undefined]
                         else [])\<rparr>"

text \<open>
  An instance whose \<open>change\<close> handler calls \<open>setEditorValue\<close> twice each time it runs,
  with a longer value each time.
\<close>

definition twiceCallback :: callback where
  "twiceCallback =
     Callback ''twice''
       [ASetEditorValue (Some (Cat NativeValue (Lit ''x''))),
        ASetEditorValue (Some (Cat NativeValue (Lit ''y'')))] Undefined"

definition twiceEditor :: jodit where
  "twiceEditor = freshEditor\<lparr>handlers := (\<lambda>ev. if ev = ''change'' then [twiceCallback] else [])\<rparr>"



section \<open>Locking\<close>

lemma isLocked_iff: "isLocked p = (whoLocked p \<noteq> [])"
  by (simp add: isLocked_def)

text \<open>
  Claim C8. On an unlocked component \<open>lock(a)\<close> returns true and records \<open>a\<close> as the
  holder; on a locked one \<open>lock(b)\<close> returns false and changes nothing; \<open>unlock()\<close>
  on a locked component returns true and clears the holder; on an unlocked one it
  returns false. The holder is one string, so there is never more than one. The same
  holds for the editor itself, whose \<open>lock\<close> and \<open>unlock\<close> go through those of the
  panel, when its selection object and editor are present. (A holder name is not empty:
  the empty string is the mark of the unlocked state.)
\<close>

theorem lock_unlock_single_holder:
  assumes "\<not> isLocked p" and "isLocked q"
    and "\<not> isLocked s" and "isLocked t"
    and "selection s" and "editor s \<noteq> None" and "selection t" and "editor t \<noteq> None"
  shows "panel_lock (Some a) p = (True, p\<lparr>whoLocked := a\<rparr>)
    \<and> isLocked (snd (panel_lock (Some a) p)) = (a \<noteq> [])
    \<and> panel_lock (Some b) q = (False, q)
    \<and> panel_unlock q = (True, q\<lparr>whoLocked := []\<rparr>)
    \<and> \<not> isLocked (snd (panel_unlock q))
    \<and> panel_unlock p = (False, p)
    \<and> (\<exists>s'. jodit_lock (Some a) s = Ok True s' \<and> whoLocked s' = a)
    \<and> jodit_lock (Some b) t = Ok False t
    \<and> (\<exists>t'. jodit_unlock t = Ok True t' \<and> whoLocked t' = [])
    \<and> jodit_unlock s = Ok False s"
  using assms
  by (auto simp: panel_lock_def panel_unlock_def jodit_lock_def jodit_unlock_def lockName_def
      isLocked_def trace_def Let_def split: option.splits)

theorem lock_unlock_single_holder_witness:
  "\<not> isLocked freshPanel \<and> isLocked (freshPanel\<lparr>whoLocked := ''a''\<rparr>)
   \<and> \<not> isLocked freshEditor \<and> isLocked (freshEditor\<lparr>whoLocked := ''a''\<rparr>)
   \<and> selection freshEditor \<and> editor freshEditor \<noteq> None
   \<and> panel_lock (Some ''a'') freshPanel = (True, freshPanel\<lparr>whoLocked := ''a''\<rparr>)
   \<and> panel_lock (Some ''b'') (freshPanel\<lparr>whoLocked := ''a''\<rparr>)
       = (False, freshPanel\<lparr>whoLocked := ''a''\<rparr>)
   \<and> panel_unlock (freshPanel\<lparr>whoLocked := ''a''\<rparr>)
       = (True, freshPanel\<lparr>whoLocked := ''a'', whoLocked := []\<rparr>)
   \<and> panel_unlock freshPanel = (False, freshPanel)
   \<and> jodit_lock (Some ''b'') (freshEditor\<lparr>whoLocked := ''a''\<rparr>)
       = Ok False (freshEditor\<lparr>whoLocked := ''a''\<rparr>)
   \<and> jodit_unlock freshEditor = Ok False freshEditor"
proof -
  have h: "\<not> isLocked freshPanel" "isLocked (freshPanel\<lparr>whoLocked := ''a''\<rparr>)"
    "\<not> isLocked freshEditor" "isLocked (freshEditor\<lparr>whoLocked := ''a''\<rparr>)"
    "selection freshEditor" "editor freshEditor \<noteq> None"
    "selection (freshEditor\<lparr>whoLocked := ''a''\<rparr>)"
    "editor (freshEditor\<lparr>whoLocked := ''a''\<rparr>) \<noteq> None"
    by (simp_all add: isLocked_def freshPanel_def freshEditor_def)
  note r = lock_unlock_single_holder [OF h, where a = "''a''" and b = "''b''"]
  from h r show ?thesis by simp
qed

section \<open>Destruction of a panel\<close>

text \<open>
  Claim C10. \<open>Panel.destruct()\<close> on a live panel returns at once and leaves the panel
  as it was, container included: the guard returns when \<open>isDestructed\<close> is false. The
  teardown (removal of the container, then the destructor of the base class) runs only
  on a panel that is already marked destructed.
\<close>

theorem panel_destruct_guard_inverted:
  assumes "\<not> isDestructed p" and "isDestructed q"
  shows "panel_destruct super_destruct p = p
    \<and> panel_destruct super_destruct q = super_destruct (q\<lparr>container := None\<rparr>)"
  using assms by (simp add: panel_destruct_def)

theorem panel_destruct_guard_inverted_witness:
  "\<not> isDestructed freshPanel \<and> isDestructed (freshPanel\<lparr>isDestructed := True\<rparr>)
   \<and> panel_destruct (\<lambda>p. p) freshPanel = freshPanel
   \<and> container (panel_destruct (\<lambda>p. p) freshPanel) = Some []
   \<and> container (panel_destruct (\<lambda>p. p) (freshPanel\<lparr>isDestructed := True\<rparr>)) = None"
proof -
  have h: "\<not> isDestructed freshPanel" "isDestructed (freshPanel\<lparr>isDestructed := True\<rparr>)"
    by (simp_all add: freshPanel_def)
  note r = panel_destruct_guard_inverted [OF h, where super_destruct = "\<lambda>p. p"]
  from h r show ?thesis by (simp add: freshPanel_def)
qed
section \<open>What a call leaves unchanged\<close>

text \<open>
  Whatever the handlers are, the operations change nothing but the editor content, the
  source element, the change counter and the trace, and they only add to the trace.
\<close>

lemma frame_refl: "frame s s" by (simp add: frame_def)

lemma frame_trans: "frame s t \<Longrightarrow> frame t u \<Longrightarrow> frame s u"
  unfolding frame_def by (metis prefix_order.trans)

lemma frame_trace: "frame s (trace e s)" by (simp add: frame_def trace_def)

lemma holds_None: "holds None P" by (simp add: holds_def)
lemma holds_Ok: "holds (Some (Ok a t)) P = P t" by (simp add: holds_def resState_def)
lemma holds_Thrown: "holds (Some (Thrown e t)) P = P t" by (simp add: holds_def resState_def)

lemma holds_frame_step:
  assumes "frame s t" and "holds r (frame t)" shows "holds r (frame s)"
proof (cases r)
  case None then show ?thesis by (simp add: holds_def)
next
  case (Some x)
  with assms(2) have "frame t (resState x)" by (simp add: holds_def)
  with assms(1) have "frame s (resState x)" by (rule frame_trans)
  with Some show ?thesis by (simp add: holds_def)
qed

lemma holds_bindR:
  assumes "holds m (frame s)" and "\<And>a t. frame s t \<Longrightarrow> holds (f a t) (frame t)"
  shows "holds (bindR m f) (frame s)"
proof (cases m)
  case None then show ?thesis by (simp add: bindR_def holds_def)
next
  case (Some x)
  show ?thesis
  proof (cases x)
    case (Ok a t)
    with Some assms(1) have st: "frame s t" by (simp add: holds_Ok)
    from assms(2)[OF st, of a] have "holds (f a t) (frame t)" .
    with st have "holds (f a t) (frame s)" by (rule holds_frame_step)
    with Some Ok show ?thesis by (simp add: bindR_def)
  next
    case (Thrown e t)
    with Some assms(1) show ?thesis by (simp add: bindR_def holds_def resState_def)
  qed
qed


lemma runAction_frame:
  assumes S: "\<forall>v s. holds (sev v s) (frame s)" and E: "\<forall>c u v s. holds (exc c u v s) (frame s)"
  shows "holds (runAction sev exc a p s) (frame s)"
proof (cases a)
  case (ASetEditorValue e)
  show ?thesis unfolding runAction_def ASetEditorValue action.case
    by (rule holds_bindR) (simp_all add: S holds_Ok frame_refl)
next
  case (AExecCommand c)
  show ?thesis unfolding runAction_def AExecCommand action.case
    by (rule holds_bindR) (simp_all add: E holds_Ok frame_refl)
qed (simp_all add: runAction_def holds_Ok holds_Thrown frame_refl)

lemma runActions_frame:
  assumes S: "\<forall>v s. holds (sev v s) (frame s)" and E: "\<forall>c u v s. holds (exc c u v s) (frame s)"
  shows "holds (runActions sev exc as p s) (frame s)"
proof (induction as arbitrary: p s)
  case Nil show ?case by (simp add: holds_Ok frame_refl)
next
  case (Cons a as)
  show ?case unfolding runActions.simps
    by (rule holds_bindR) (simp_all add: runAction_frame[OF S E] Cons.IH)
qed

lemma runCallback_frame:
  assumes S: "\<forall>v s. holds (sev v s) (frame s)" and E: "\<forall>c u v s. holds (exc c u v s) (frame s)"
  shows "holds (runCallback sev exc cb args p s) (frame s)"
  unfolding runCallback_def
proof (rule holds_bindR)
  show "holds (runActions sev exc (body cb) p (trace (Called (label cb) args) s)) (frame s)"
    by (rule holds_frame_step[OF frame_trace]) (rule runActions_frame[OF S E])
qed (simp add: holds_Ok frame_refl)

lemma runHandlers_frame:
  assumes S: "\<forall>v s. holds (sev v s) (frame s)" and E: "\<forall>c u v s. holds (exc c u v s) (frame s)"
  shows "holds (runHandlers sev exc cbs args acc p s) (frame s)"
proof (induction cbs arbitrary: acc p s)
  case Nil show ?case by (simp add: holds_Ok frame_refl)
next
  case (Cons cb cbs)
  show ?case unfolding runHandlers.simps
    by (rule holds_bindR) (simp_all add: runCallback_frame[OF S E] Cons.IH split: prod.splits)
qed

lemma fire_frame:
  assumes S: "\<forall>v s. holds (sev v s) (frame s)" and E: "\<forall>c u v s. holds (exc c u v s) (frame s)"
  shows "holds (fire sev exc ev args p s) (frame s)"
  unfolding fire_def
  by (rule holds_frame_step[OF frame_trace]) (rule runHandlers_frame[OF S E])

lemma getEditorValue_frame:
  assumes S: "\<forall>v s. holds (sev v s) (frame s)" and E: "\<forall>c u v s. holds (exc c u v s) (frame s)"
  shows "holds (getEditorValue sev exc b s) (frame s)"
  unfolding getEditorValue_def
  apply (rule holds_bindR)
   apply (rule fire_frame[OF S E])
  apply (clarsimp simp: holds_Ok frame_refl)
  apply (rule holds_bindR)
   apply (rule fire_frame[OF S E])
  apply (clarsimp simp: holds_Ok frame_refl)
  done

lemma writeElement_frame: "frame s (writeElement v s)"
  by (simp add: writeElement_def frame_def split: option.splits)

lemma setElementValue_frame:
  assumes S: "\<forall>v s. holds (sev v s) (frame s)" and E: "\<forall>c u v s. holds (exc c u v s) (frame s)"
  shows "holds (setElementValue sev exc val s) (frame s)"
proof -
  have w: "frame s (case val of JStr v \<Rightarrow> writeElement v s | _ \<Rightarrow> s)"
    by (cases val) (simp_all add: frame_refl writeElement_frame)
  show ?thesis
    unfolding setElementValue_def Let_def
    by (auto intro!: holds_frame_step[OF w] holds_bindR getEditorValue_frame[OF S E]
        simp: holds_Ok holds_Thrown frame_refl S)
qed


lemma setNativeEditorValue_frame: "frame s (setNativeEditorValue v s)"
  by (simp add: setNativeEditorValue_def frame_def split: option.splits)

lemma writeNative_frame: "frame s (writeNative v html s)"
  by (cases v) (simp_all add: writeNative_def frame_refl setNativeEditorValue_frame)

lemma counter_frame: "frame s (s\<lparr>callChangeCount := c\<rparr>)"
  by (simp add: frame_def)

lemma fireChange_frame:
  assumes S: "\<forall>v s. holds (sev v s) (frame s)" and E: "\<forall>c u v s. holds (exc c u v s) (frame s)"
  shows "holds (fireChange sev exc nv ov s) (frame s)"
proof (cases "fire sev exc ''change'' [nv, ov] Undefined s")
  case None then show ?thesis by (simp add: fireChange_def holds_None)
next
  case (Some x)
  from fire_frame[OF S E, where ev = "''change''" and args = "[nv, ov]" and p = Undefined and s = s] Some
  have "frame s (resState x)" by (simp add: holds_def)
  then have "frame s ((resState x)\<lparr>callChangeCount := 0\<rparr>)"
    by (rule frame_trans) (rule counter_frame)
  with Some show ?thesis
    by (cases x) (simp_all add: fireChange_def holds_Ok holds_Thrown resState_def)
qed

lemma syncValues_frame:
  assumes S: "\<forall>v s. holds (sev v s) (frame s)" and E: "\<forall>c u v s. holds (exc c u v s) (frame s)"
  shows "holds (syncValues sev exc s) (frame s)"
  unfolding syncValues_def Let_def
proof (rule holds_bindR)
  show "holds (getEditorValue sev exc True s) (frame s)" by (rule getEditorValue_frame[OF S E])
next
  fix a t
  have "holds (bindR (setElementValue sev exc a t)
          (\<lambda>r s2. fireChange sev exc a (JStr (getElementValue s))
                     (s2\<lparr>callChangeCount := callChangeCount s2 + 1\<rparr>))) (frame t)"
  proof (rule holds_bindR)
    show "holds (setElementValue sev exc a t) (frame t)" by (rule setElementValue_frame[OF S E])
  next
    fix r u
    show "holds (fireChange sev exc a (JStr (getElementValue s))
            (u\<lparr>callChangeCount := callChangeCount u + 1\<rparr>)) (frame u)"
      by (rule holds_frame_step[OF counter_frame]) (rule fireChange_frame[OF S E])
  qed
  then show "holds (if JStr (getElementValue s) \<noteq> a \<and> callChangeCount t < SAFE_COUNT_CHANGE_CALL
          then bindR (setElementValue sev exc a t)
            (\<lambda>r s2. fireChange sev exc a (JStr (getElementValue s))
                     (s2\<lparr>callChangeCount := callChangeCount s2 + 1\<rparr>))
          else Some (Ok Undefined t)) (frame t)"
    by (simp add: holds_Ok frame_refl)
qed

lemma setEditorValue_body_frame:
  assumes S: "\<forall>v s. holds (sev v s) (frame s)" and E: "\<forall>c u v s. holds (exc c u v s) (frame s)"
  shows "holds (setEditorValue_body sev exc val s) (frame s)"
  unfolding setEditorValue_body_def
proof (rule holds_bindR)
  show "holds (fire sev exc ''beforeSetValueToEditor'' [val] Undefined s) (frame s)"
    by (rule fire_frame[OF S E])
next
  fix a :: "jsval \<times> jsval" and t
  have sync: "holds (syncValues sev exc (writeNative w html t)) (frame t)" for w html
    by (rule holds_frame_step[OF writeNative_frame]) (rule syncValues_frame[OF S E])
  show "holds ((case a of (newValue, p) \<Rightarrow> \<lambda>s1.
          if newValue = JBool False then Some (Ok Undefined s1)
          else let value = if isString newValue then newValue else val
               in case editor s1 of
                    None \<Rightarrow> if value \<noteq> Undefined then setElementValue sev exc value s1
                            else Some (Ok Undefined s1)
                  | Some html \<Rightarrow>
                      if \<not> isString value \<and> value \<noteq> Undefined
                      then Some (Thrown ''value must be string'' s1)
                      else syncValues sev exc (writeNative value html s1)) t) (frame t)"
    by (cases a) (simp add: Let_def holds_Ok holds_Thrown frame_refl sync
        setElementValue_frame[OF S E] split: option.splits)
qed


lemma customLoop_frame:
  assumes S: "\<forall>v s. holds (sev v s) (frame s)" and E: "\<forall>c u v s. holds (exc c u v s) (frame s)"
  shows "holds (customLoop k sev exc name u v i r s) (frame s)"
proof (induction k arbitrary: i r s)
  case 0 show ?case by (simp add: holds_None)
next
  case (Suc k)
  show ?case
  proof (cases "commands s name")
    case None then show ?thesis by (simp add: holds_Thrown frame_refl)
  next
    case (Some cs)
    show ?thesis
    proof (cases "i < length cs")
      case True
      have "holds (bindR (runCallback sev exc (callbackOf (cs ! i)) [JStr name, u, v] Undefined s)
              (\<lambda>(resultCurrent, p) s'. customLoop k sev exc name u v (i + 1)
                  (if resultCurrent \<noteq> Undefined then resultCurrent else r) s')) (frame s)"
        by (rule holds_bindR) (simp_all add: runCallback_frame[OF S E] Suc.IH split: prod.splits)
      with Some True show ?thesis by simp
    next
      case False with Some show ?thesis by (simp add: holds_Ok frame_refl)
    qed
  qed
qed

lemma execCustomCommands_frame:
  assumes S: "\<forall>v s. holds (sev v s) (frame s)" and E: "\<forall>c u v s. holds (exc c u v s) (frame s)"
  shows "holds (execCustomCommands k sev exc name u v s) (frame s)"
  unfolding execCustomCommands_def Let_def
  by (simp add: holds_Ok frame_refl customLoop_frame[OF S E] split: option.splits)

lemma nativePhase_frame: "holds (nativePhase c u v r s) (frame s)"
  unfolding nativePhase_def Let_def
  by (simp add: holds_Ok holds_Thrown frame_def trace_def split: option.splits prod.splits)

lemma execCommand_body_frame:
  assumes S: "\<forall>v s. holds (sev v s) (frame s)" and E: "\<forall>c u v s. holds (exc c u v s) (frame s)"
  shows "holds (execCommand_body k sev exc c u v s) (frame s)"
proof (cases "readonly s \<and> c \<noteq> ''selectall''")
  case True then show ?thesis by (simp add: execCommand_body_def holds_Ok frame_refl)
next
  case False
  have "holds (bindR (fire sev exc ''beforeCommand'' [JStr (toLowerCase c), u, v] Undefined s)
          (\<lambda>(result, p) s1.
        bindR (if result \<noteq> JBool False
               then execCustomCommands k sev exc (toLowerCase c) u v s1
               else Some (Ok result s1))
          (\<lambda>result s2.
        bindR (if result \<noteq> JBool False then nativePhase (toLowerCase c) u v result s2
               else Some (Ok result s2))
          (\<lambda>result s3.
        bindR (fire sev exc ''afterCommand'' [JStr (toLowerCase c), u, v] Undefined s3)
          (\<lambda>r s4.
        bindR (sev Undefined s4)
          (\<lambda>r' s5. Some (Ok result s5))))))) (frame s)"
    apply (rule holds_bindR)
     apply (rule fire_frame[OF S E])
    apply (simp only: split_paired_all prod.case)
    apply (rule holds_bindR)
     apply (simp add: holds_Ok frame_refl execCustomCommands_frame[OF S E])
    apply (rule holds_bindR)
     apply (simp add: holds_Ok frame_refl nativePhase_frame)
    apply (rule holds_bindR)
     apply (rule fire_frame[OF S E])
    apply (rule holds_bindR)
     apply (simp add: S)
    apply (simp add: holds_Ok frame_refl)
    done
  with False show ?thesis unfolding execCommand_body_def Let_def by (simp only: if_False)
qed

lemma setEditorValue_execCommand_frame:
  "(\<forall>v s. holds (setEditorValue n v s) (frame s))
   \<and> (\<forall>c u v s. holds (execCommand n c u v s) (frame s))"
proof (induction n)
  case 0 show ?case by (simp add: holds_None)
next
  case (Suc n)
  then have S: "\<forall>v s. holds (setEditorValue n v s) (frame s)"
    and E: "\<forall>c u v s. holds (execCommand n c u v s) (frame s)" by simp_all
  show ?case
    by (simp add: setEditorValue_body_frame[OF S E] execCommand_body_frame[OF S E])
qed

lemmas setEditorValue_frame = setEditorValue_execCommand_frame[THEN conjunct1, rule_format]
lemmas execCommand_frame = setEditorValue_execCommand_frame[THEN conjunct2, rule_format]

section \<open>Results of calls\<close>

lemma bindR_Ok:
  "(bindR m f = Some (Ok b u)) = (\<exists>a t. m = Some (Ok a t) \<and> f a t = Some (Ok b u))"
  by (auto simp: bindR_def split: option.splits res.splits)

lemma fire_fuel_frame:
  "holds (fire (setEditorValue n) (execCommand n) ev args p s) (frame s)"
  by (rule fire_frame) (simp_all add: setEditorValue_frame execCommand_frame)

lemma fire_fuel_Ok:
  "fire (setEditorValue n) (execCommand n) ev args p s = Some (Ok a t) \<Longrightarrow> frame s t"
  using fire_fuel_frame[of n ev args p s] by (simp add: holds_Ok)

lemma returns_Ok: "returns (Some (Ok a t)) Q = Q a t" by (simp add: returns_def)
lemma returns_Thrown: "returns (Some (Thrown e t)) Q" by (simp add: returns_def)
lemma returns_None: "returns None Q" by (simp add: returns_def)

lemma returns_bindR:
  assumes "returns m P" and "\<And>a t. P a t \<Longrightarrow> returns (f a t) Q"
  shows "returns (bindR m f) Q"
  using assms by (auto simp: returns_def bindR_Ok)

lemma returns_weaken: "returns r P \<Longrightarrow> (\<And>a t. P a t \<Longrightarrow> Q a t) \<Longrightarrow> returns r Q"
  by (simp add: returns_def)

lemma returnsD: "returns r Q \<Longrightarrow> r = Some (Ok a t) \<Longrightarrow> Q a t"
  by (simp add: returns_def)

lemma fire_fuel_returns:
  "returns (fire (setEditorValue n) (execCommand n) ev args p s) (\<lambda>a t. frame s t)"
  by (simp add: returns_def fire_fuel_Ok)

lemma setReadOnly_returns:
  "returns (setReadOnly n b s) (\<lambda>r t. disabled t = disabled s \<and> wasReadOnly t = b
     \<and> readonly t = (if wasReadOnly s = b then readonly s else b))"
proof (cases "wasReadOnly s = b")
  case True then show ?thesis by (simp add: setReadOnly_def returns_Ok)
next
  case False
  show ?thesis
    unfolding setReadOnly_def Let_def using False
    apply (simp only: if_False)
    apply (rule returns_bindR)
     apply (rule fire_fuel_returns)
    apply (simp add: returns_Ok frame_def split: option.splits)
    done
qed

lemma markDisabled_returns:
  "returns (markDisabled n b s) (\<lambda>r t. disabled t = disabled s \<and> wasReadOnly t = wasReadOnly s
     \<and> readonly t = readonly s)"
proof (cases "editor s")
  case None then show ?thesis by (simp add: markDisabled_def returns_Ok)
next
  case (Some html)
  show ?thesis
  proof (cases "container s")
    case None with Some show ?thesis by (simp add: markDisabled_def returns_Thrown)
  next
    case (Some classes)
    with \<open>editor s = Some html\<close> show ?thesis
      apply (simp add: markDisabled_def Let_def split del: if_split)
      apply (rule returns_bindR[OF fire_fuel_returns])
      apply (simp add: returns_Ok frame_def)
      done
  qed
qed

lemma setDisabled_returns:
  "returns (setDisabled n b s) (\<lambda>r t. disabled t = b \<and> wasReadOnly t = wasReadOnly s
    \<and> readonly t = (if wasReadOnly s = (b \<or> wasReadOnly s) then readonly s else (b \<or> wasReadOnly s)))"
  unfolding setDisabled_def Let_def
  apply (rule returns_bindR[OF setReadOnly_returns])
  apply (rule returns_weaken[OF markDisabled_returns])
  apply (cases b; cases "wasReadOnly s"; simp)
  done

lemma fire_no_handlers:
  "handlers s ev = [] \<Longrightarrow>
   fire sev exc ev args p s = Some (Ok (Undefined, p) (trace (Fired ev args p) s))"
  by (simp add: fire_def trace_def)

lemma setReadOnly_quiet:
  assumes "handlers s ''readonly'' = []"
  shows "\<exists>t. setReadOnly n b s = Some (Ok Undefined t) \<and> handlers t = handlers s
    \<and> container t = container s \<and> editor t = editor s"
  using assms
  by (simp add: setReadOnly_def Let_def fire_no_handlers bindR_def trace_def split: option.splits)

lemma markDisabled_quiet:
  assumes "handlers s ''disabled'' = []" and "container s \<noteq> None"
  shows "\<exists>t. markDisabled n b s = Some (Ok Undefined t) \<and> handlers t = handlers s
    \<and> container t \<noteq> None"
  using assms
  by (auto simp: markDisabled_def Let_def fire_no_handlers bindR_def trace_def
      split: option.splits)

lemma setDisabled_quiet:
  assumes "handlers s ''readonly'' = []" and "handlers s ''disabled'' = []"
    and "container s \<noteq> None"
  shows "\<exists>t. setDisabled n b s = Some (Ok Undefined t) \<and> handlers t = handlers s
    \<and> container t \<noteq> None"
proof -
  from setReadOnly_quiet[of "s\<lparr>disabled := b\<rparr>" n "b \<or> wasReadOnly s"] assms(1)
  obtain t where t: "setReadOnly n (b \<or> wasReadOnly s) (s\<lparr>disabled := b\<rparr>) = Some (Ok Undefined t)"
    "handlers t = handlers s" "container t = container s"
    by auto
  from markDisabled_quiet[of "t\<lparr>wasReadOnly := wasReadOnly s\<rparr>" n b] t assms
  obtain u where "markDisabled n b (t\<lparr>wasReadOnly := wasReadOnly s\<rparr>) = Some (Ok Undefined u)"
    "handlers u = handlers s" "container u \<noteq> None"
    by auto
  with t show ?thesis by (simp add: setDisabled_def Let_def bindR_def)
qed

section \<open>Disabling and enabling\<close>

text \<open>
  Claim C9. On an instance that is neither read-only nor disabled (and whose saved flag
  \<open>__wasReadOnly\<close> is false, as it is whenever the instance is not read-only),
  \<open>setDisabled(true)\<close> followed by \<open>setDisabled(false)\<close> leaves \<open>getDisabled()\<close> false
  and \<open>getReadOnly()\<close> true: disabling forces the read-only flag and restores the saved
  flag to false, so on enabling \<open>setReadOnly(false)\<close> finds the saved flag equal to its
  argument and returns at once.
\<close>

theorem disable_enable_stays_readonly:
  assumes "\<not> readonly s" and "\<not> disabled s" and "\<not> wasReadOnly s"
    and "setDisabled n True s = Some (Ok r1 s1)"
    and "setDisabled n False s1 = Some (Ok r2 s2)"
  shows "getDisabled s1 \<and> getReadOnly s1 \<and> \<not> wasReadOnly s1
    \<and> \<not> getDisabled s2 \<and> getReadOnly s2
    \<and> setReadOnly n False (s1\<lparr>disabled := False\<rparr>) = Some (Ok Undefined (s1\<lparr>disabled := False\<rparr>))"
  using returnsD[OF setDisabled_returns assms(4)] returnsD[OF setDisabled_returns assms(5)] assms(1-3)
  by (simp add: getDisabled_def getReadOnly_def setReadOnly_def)

theorem disable_enable_stays_readonly_witness:
  "\<not> readonly freshEditor \<and> \<not> disabled freshEditor \<and> \<not> wasReadOnly freshEditor
   \<and> (\<exists>r1 s1 r2 s2. setDisabled 1 True freshEditor = Some (Ok r1 s1)
         \<and> setDisabled 1 False s1 = Some (Ok r2 s2)
         \<and> getDisabled s1 \<and> getReadOnly s1 \<and> \<not> getDisabled s2 \<and> getReadOnly s2)"
proof -
  have h: "\<not> readonly freshEditor" "\<not> disabled freshEditor" "\<not> wasReadOnly freshEditor"
    by (simp_all add: freshEditor_def)
  have q: "handlers freshEditor ''readonly'' = []" "handlers freshEditor ''disabled'' = []"
    "container freshEditor \<noteq> None"
    by (simp_all add: freshEditor_def)
  from setDisabled_quiet[OF q, of 1 True] obtain s1 where
    s1: "setDisabled 1 True freshEditor = Some (Ok Undefined s1)"
    "handlers s1 = handlers freshEditor" "container s1 \<noteq> None" by auto
  from setDisabled_quiet[of s1 1 False] s1 q obtain s2 where
    s2: "setDisabled 1 False s1 = Some (Ok Undefined s2)" by auto
  from disable_enable_stays_readonly[OF h s1(1) s2] h s1(1) s2 show ?thesis by blast
qed

section \<open>Evaluation on concrete instances\<close>

lemmas eval_defs = execCommand_body_def execCustomCommands_def nativePhase_def fire_def
  setEditorValue_body_def syncValues_def getEditorValue_def setElementValue_def fireChange_def
  writeNative_def cleanValue_def getElementValue_def getNativeEditorValue_def
  setNativeEditorValue_def writeElement_def trace_def bindR_def Let_def toLowerCase_def
  lower_char_def isString_def SAFE_COUNT_CHANGE_CALL_def runCallback_def runAction_def
  callbackOf_def traceOf_def resState_def eval_nat_numeral

section \<open>Commands on a read-only instance\<close>

lemma readonly_other_command_noop:
  "readonly s \<Longrightarrow> c \<noteq> ''selectall'' \<Longrightarrow> execCommand (Suc n) c u v s = Some (Ok Undefined s)"
  by (simp add: execCommand_body_def)

text \<open>
  Claim C2. The read-only guard of \<open>execCommand\<close> compares the command name with
  \<^verbatim>\<open>'selectall'\<close> before the name is lowercased. On a read-only instance
  \<open>execCommand('SelectAll')\<close> therefore returns at once, with the state untouched,
  while \<open>execCommand('selectall')\<close> runs; on an instance that is not read-only the
  spelling \<open>SelectAll\<close> runs the selection too, since the later comparison is made
  on the lowercased name.
\<close>

theorem readonly_mixed_case_selectall_ignored:
  "execCommand 2 ''SelectAll'' (JBool False) JNull (freshEditor\<lparr>readonly := True\<rparr>)
     = Some (Ok Undefined (freshEditor\<lparr>readonly := True\<rparr>))
   \<and> traceOf (execCommand 2 ''selectall'' (JBool False) JNull (freshEditor\<lparr>readonly := True\<rparr>))
     = Some [Fired ''beforeCommand'' [JStr ''selectall'', JBool False, JNull] Undefined,
             Focus, SelectAll,
             Fired ''afterCommand'' [JStr ''selectall'', JBool False, JNull] Undefined,
             Fired ''beforeSetValueToEditor'' [Undefined] Undefined,
             Fired ''beforeGetValueFromEditor'' [] Undefined,
             Fired ''afterGetValueFromEditor'' [] (JStr [])]
   \<and> traceOf (execCommand 2 ''SelectAll'' (JBool False) JNull freshEditor)
     = Some [Fired ''beforeCommand'' [JStr ''selectall'', JBool False, JNull] Undefined,
             Focus, SelectAll,
             Fired ''afterCommand'' [JStr ''selectall'', JBool False, JNull] Undefined,
             Fired ''beforeSetValueToEditor'' [Undefined] Undefined,
             Fired ''beforeGetValueFromEditor'' [] Undefined,
             Fired ''afterGetValueFromEditor'' [] (JStr [])]"
  by (simp add: eval_defs freshEditor_def)



section \<open>A vetoed command\<close>



section \<open>Setting the mode\<close>



lemma parseInt_2px: "parseInt (modeToString (ModeStr ''2px'')) = JNum 2"
  by (simp add: parseInt_def modeToString_def isWhiteSpace_def isDigit_def digitValue_def
      digitsValue_def)










section \<open>Hotkeys of registered commands\<close>






section \<open>Handlers that do not call into the editor\<close>

lemma log_update_twice [simp]: "(s\<lparr>log := a\<rparr>)\<lparr>log := b\<rparr> = s\<lparr>log := b\<rparr>"
  by simp





lemma cleanValue_log [simp]: "cleanValue b (s\<lparr>log := l\<rparr>) = cleanValue b s"
  by (simp add: cleanValue_def getNativeEditorValue_def getElementValue_def split: option.splits)

lemma localHandlers_log [simp]: "localHandlers (s\<lparr>log := l\<rparr>) ev = localHandlers s ev"
  by (simp add: localHandlers_def)


section \<open>A cancelled write\<close>


lemmas sync_eval = setEditorValue_body_def syncValues_def getEditorValue_def setElementValue_def
  fireChange_def writeNative_def cleanValue_def getElementValue_def getNativeEditorValue_def
  setNativeEditorValue_def writeElement_def fire_def runCallback_def runAction_def trace_def
  bindR_def Let_def isString_def SAFE_COUNT_CHANGE_CALL_def marker_match_def


section \<open>The recursion guard of the change event\<close>

lemma getEditorValue_quiet:
  assumes "handlers s ''beforeGetValueFromEditor'' = []"
    and "handlers s ''afterGetValueFromEditor'' = []"
  shows "getEditorValue sev exc b s
     = Some (Ok (JStr (cleanValue b s))
         (s\<lparr>log := log s @ [Fired ''beforeGetValueFromEditor'' [] Undefined,
                             Fired ''afterGetValueFromEditor'' [] (JStr (cleanValue b s))]\<rparr>))"
  using assms
  by (simp add: getEditorValue_def fire_no_handlers bindR_def trace_def)

lemma cleanValue_writeElement:
  "editor s \<noteq> None \<Longrightarrow> cleanValue b (writeElement w s) = cleanValue b s"
  by (auto simp: cleanValue_def writeElement_def getNativeEditorValue_def split: option.splits)

lemma setElementValue_quiet:
  assumes "handlers s ''beforeGetValueFromEditor'' = []"
    and "handlers s ''afterGetValueFromEditor'' = []"
    and "editor s \<noteq> None"
  shows "setElementValue sev exc (JStr (cleanValue True s)) s
     = Some (Ok Undefined
         ((writeElement (cleanValue True s) s)
            \<lparr>log := log s @ [Fired ''beforeGetValueFromEditor'' [] Undefined,
                             Fired ''afterGetValueFromEditor'' [] (JStr (cleanValue True s))]\<rparr>))"
proof -
  let ?w = "writeElement (cleanValue True s) s"
  have h: "handlers ?w ''beforeGetValueFromEditor'' = []" "handlers ?w ''afterGetValueFromEditor'' = []"
    "log ?w = log s"
    using assms by (simp_all add: writeElement_def split: option.splits)
  show ?thesis
    by (simp add: setElementValue_def isString_def Let_def getEditorValue_quiet[OF h(1,2)]
        cleanValue_writeElement[OF assms(3)] bindR_def h(3))
qed


lemma changeFirings_append:
  "changeFirings (s\<lparr>log := log s @ L\<rparr>) = changeFirings s + length (filter isChange L)"
  by (simp add: changeFirings_def)

lemma frame_log_append: "frame s (s\<lparr>log := log s @ L\<rparr>)"
  by (simp add: frame_def)

lemma syncValues_quiet_nofire:
  assumes "handlers s ''beforeGetValueFromEditor'' = []"
    and "handlers s ''afterGetValueFromEditor'' = []"
    and "getElementValue s = cleanValue True s \<or> SAFE_COUNT_CHANGE_CALL \<le> callChangeCount s"
  shows "\<exists>t. syncValues sev exc s = Some (Ok Undefined t) \<and> frame s t \<and> editor t = editor s
    \<and> elem t = elem s \<and> changeFirings t = changeFirings s
    \<and> callChangeCount t = callChangeCount s \<and> calls l t = calls l s"
  using assms(3)
  by (auto simp: syncValues_def Let_def getEditorValue_quiet[OF assms(1,2)] bindR_def
      changeFirings_append frame_log_append isChange_def calls_def isCallOf_def)

lemma syncValues_quiet_fire:
  assumes "handlers s ''beforeGetValueFromEditor'' = []"
    and "handlers s ''afterGetValueFromEditor'' = []"
    and "editor s \<noteq> None"
    and "getElementValue s \<noteq> cleanValue True s"
    and "callChangeCount s < SAFE_COUNT_CHANGE_CALL"
  shows "\<exists>u. syncValues sev exc s
            = fireChange sev exc (JStr (cleanValue True s)) (JStr (getElementValue s)) u
    \<and> frame s u \<and> editor u = editor s \<and> changeFirings u = changeFirings s
    \<and> callChangeCount u = callChangeCount s + 1 \<and> calls l u = calls l s
    \<and> elem u = elem (writeElement (cleanValue True s) s)"
proof -
  let ?g = "[Fired ''beforeGetValueFromEditor'' [] Undefined,
             Fired ''afterGetValueFromEditor'' [] (JStr (cleanValue True s))]"
  let ?s1 = "s\<lparr>log := log s @ ?g\<rparr>"
  have q1: "handlers ?s1 ''beforeGetValueFromEditor'' = []"
    "handlers ?s1 ''afterGetValueFromEditor'' = []" "editor ?s1 \<noteq> None"
    using assms by simp_all
  have c1: "cleanValue True ?s1 = cleanValue True s" by simp
  let ?s2 = "(writeElement (cleanValue True s) ?s1)\<lparr>log := log ?s1 @ ?g\<rparr>"
  let ?u = "?s2\<lparr>callChangeCount := callChangeCount ?s2 + 1\<rparr>"
  have "syncValues sev exc s
          = fireChange sev exc (JStr (cleanValue True s)) (JStr (getElementValue s)) ?u"
    using assms(4,5) setElementValue_quiet[OF q1, of sev exc]
    by (simp add: syncValues_def Let_def getEditorValue_quiet[OF assms(1,2)] bindR_def c1)
  moreover have "frame s ?u \<and> editor ?u = editor s \<and> changeFirings ?u = changeFirings s
      \<and> callChangeCount ?u = callChangeCount s + 1 \<and> calls l ?u = calls l s
      \<and> elem ?u = elem (writeElement (cleanValue True s) s)"
    by (simp add: frame_def writeElement_def changeFirings_def isChange_def calls_def isCallOf_def
        split: option.splits)
  ultimately show ?thesis by blast
qed



lemma setEditorValue_unfold_quiet:
  assumes "noValueHandlers s" and "editor s = Some html" and "v = Undefined \<or> isString v"
  shows "setEditorValue (Suc n) v s
     = syncValues (setEditorValue n) (execCommand n)
         (writeNative v html (trace (Fired ''beforeSetValueToEditor'' [v] Undefined) s))"
  using assms
  by (auto simp: setEditorValue_body_def noValueHandlers_def fire_no_handlers bindR_def Let_def
      trace_def isString_def)








text \<open>
  On the concrete instance the bound is reached: ten firings, the counter back at zero.
  The eleventh call is stopped by the guard, so the editor holds one \<^verbatim>\<open>x\<close> more
  than the source element. With the throwing handler the outer call throws and the
  counter is zero all the same.
\<close>

lemmas loop_eval = sync_eval loopEditor_def throwingLoopEditor_def freshEditor_def
  eval_nat_numeral resState_def changeFirings_def isChange_def

lemma change_loop_fires_ten_times:
  "map_option (\<lambda>x. (changeFirings (resState x), callChangeCount (resState x),
                     editor (resState x), elem_value (elem (resState x))))
     (setEditorValue 11 (JStr ''a'') loopEditor)
     = Some (10, 0, Some ''axxxxxxxxxx'', Some ''axxxxxxxxx'')"
  by (simp add: loop_eval)

lemma throwing_change_loop_resets_counter:
  "map_option (\<lambda>x. (case x of Ok a s \<Rightarrow> None | Thrown e s \<Rightarrow> Some e,
                     changeFirings (resState x), callChangeCount (resState x)))
     (setEditorValue 11 (JStr ''a'') throwingLoopEditor)
     = Some (Some ''stop'', 10, 0)"
  by (simp add: loop_eval)


subsection \<open>Two calls in one handler\<close>

text \<open>
  Without the throw the two calls go on for ever. \<open>elementLags s e\<close> is the situation
  in which every call of the handler finds the instance: the editor holds the plain text
  \<open>e\<close> and the source element a value that is not longer.
\<close>

lemma marker_match_plain: "plainText t \<Longrightarrow> marker_match t = None"
proof (cases t)
  case Nil then show ?thesis by (simp add: marker_match_def)
next
  case (Cons c cs)
  assume "plainText t"
  with Cons have "c \<noteq> CHR ''<''" by (auto simp: plainText_def)
  with Cons show ?thesis by (simp add: marker_match_def)
qed

lemma removeSelectionMarkers_plain: "plainText t \<Longrightarrow> removeSelectionMarkers t = t"
proof (induction t)
  case Nil show ?case by simp
next
  case (Cons c cs)
  then have "plainText cs" by (simp add: plainText_def)
  with Cons marker_match_plain[OF Cons.prems] show ?case by simp
qed

lemma cleanValue_plain:
  assumes "elementLags s e"
  shows "cleanValue True s = e"
proof -
  from assms have "plainText e" "editor s = Some e" "\<forall>t. stripInvisible s t = t"
    by (simp_all add: elementLags_def)
  moreover from \<open>plainText e\<close> have "e \<noteq> ''<br>''" by (auto simp: plainText_def)
  ultimately show ?thesis
    by (simp add: cleanValue_def getNativeEditorValue_def removeSelectionMarkers_plain)
qed

lemma fireChange_twice:
  assumes "handlers u ''change'' = [twiceCallback]"
  shows "fireChange sev exc nv ov u =
     (let s1 = trace (Called ''twice'' [nv, ov]) (trace (Fired ''change'' [nv, ov] Undefined) u) in
      case sev (JStr (getNativeEditorValue s1 @ ''x'')) s1 of
        None \<Rightarrow> None
      | Some (Thrown err t) \<Rightarrow> Some (Thrown err (t\<lparr>callChangeCount := 0\<rparr>))
      | Some (Ok a t) \<Rightarrow>
          (case sev (JStr (getNativeEditorValue t @ ''y'')) t of
             None \<Rightarrow> None
           | Some (Thrown err t') \<Rightarrow> Some (Thrown err (t'\<lparr>callChangeCount := 0\<rparr>))
           | Some (Ok a' t') \<Rightarrow> Some (Ok Undefined (t'\<lparr>callChangeCount := 0\<rparr>))))"
  using assms
  by (simp add: fireChange_def fire_def twiceCallback_def runCallback_def runAction_def bindR_def
      Let_def split: option.splits res.splits)


lemma elementLags_trace: "elementLags (trace en s) e = elementLags s e"
  by (simp add: elementLags_def trace_def)

lemma twice_blocked:
  assumes q: "noValueHandlers s" and h: "handlers s ''change'' = [twiceCallback]"
    and lag: "elementLags s e" and c: "SAFE_COUNT_CHANGE_CALL \<le> callChangeCount s"
    and w: "plainText w"
  shows "\<exists>t. setEditorValue (Suc n) (JStr (e @ w)) s = Some (Ok Undefined t)
    \<and> noValueHandlers t \<and> handlers t ''change'' = [twiceCallback]
    \<and> elementLags t (e @ w) \<and> callChangeCount t = callChangeCount s"
proof -
  from lag have ed: "editor s = Some e" by (simp add: elementLags_def)
  let ?a = "trace (Fired ''beforeSetValueToEditor'' [JStr (e @ w)] Undefined) s"
  let ?b = "writeNative (JStr (e @ w)) e ?a"
  have unf: "setEditorValue (Suc n) (JStr (e @ w)) s
               = syncValues (setEditorValue n) (execCommand n) ?b"
    using setEditorValue_unfold_quiet[OF q ed, of "JStr (e @ w)" n] by (simp add: isString_def)
  have lb: "elementLags ?b (e @ w)"
    using lag w
    by (auto simp: elementLags_def writeNative_def setNativeEditorValue_def trace_def plainText_def)
  have qb: "handlers ?b ''beforeGetValueFromEditor'' = []"
    "handlers ?b ''afterGetValueFromEditor'' = []" "handlers ?b = handlers s"
    "callChangeCount ?b = callChangeCount s"
    using q ed by (simp_all add: noValueHandlers_def writeNative_def setNativeEditorValue_def trace_def)
  have cb: "getElementValue ?b = cleanValue True ?b \<or> SAFE_COUNT_CHANGE_CALL \<le> callChangeCount ?b"
    using c qb(4) by simp
  from syncValues_quiet_nofire[OF qb(1,2) cb, of "setEditorValue n" "execCommand n"]
  obtain t where t: "syncValues (setEditorValue n) (execCommand n) ?b = Some (Ok Undefined t)"
    "frame ?b t" "editor t = editor ?b" "elem t = elem ?b"
    "callChangeCount t = callChangeCount ?b" by blast
  have "elementLags t (e @ w)"
    using lb t(2,3,4) by (simp add: elementLags_def frame_def)
  moreover have "noValueHandlers t \<and> handlers t ''change'' = [twiceCallback]"
    using t(2) qb(3) q h by (simp add: frame_def noValueHandlers_def)
  ultimately show ?thesis using unf t(1,5) qb(4) by simp
qed

lemma twice_fires:
  assumes q: "noValueHandlers s" and h: "handlers s ''change'' = [twiceCallback]"
    and lag: "elementLags s e" and c: "callChangeCount s < SAFE_COUNT_CHANGE_CALL"
    and w: "plainText w" "w \<noteq> []"
  shows "\<exists>u nv ov. setEditorValue (Suc n) (JStr (e @ w)) s
            = fireChange (setEditorValue n) (execCommand n) nv ov u
    \<and> noValueHandlers u \<and> handlers u ''change'' = [twiceCallback]
    \<and> elementLags u (e @ w) \<and> callChangeCount u = callChangeCount s + 1"
proof -
  from lag have ed: "editor s = Some e" by (simp add: elementLags_def)
  let ?a = "trace (Fired ''beforeSetValueToEditor'' [JStr (e @ w)] Undefined) s"
  let ?b = "writeNative (JStr (e @ w)) e ?a"
  have unf: "setEditorValue (Suc n) (JStr (e @ w)) s
               = syncValues (setEditorValue n) (execCommand n) ?b"
    using setEditorValue_unfold_quiet[OF q ed, of "JStr (e @ w)" n] by (simp add: isString_def)
  have lb: "elementLags ?b (e @ w)"
    using lag w
    by (auto simp: elementLags_def writeNative_def setNativeEditorValue_def trace_def plainText_def)
  have qb: "handlers ?b ''beforeGetValueFromEditor'' = []"
    "handlers ?b ''afterGetValueFromEditor'' = []" "handlers ?b = handlers s"
    "callChangeCount ?b = callChangeCount s"
    using q ed by (simp_all add: noValueHandlers_def writeNative_def setNativeEditorValue_def trace_def)
  have edb: "editor ?b \<noteq> None" using lb by (simp add: elementLags_def)
  have cl: "cleanValue True ?b = e @ w" using lb by (rule cleanValue_plain)
  from lag obtain L where L: "elem_value (elem s) = Some L" "length L \<le> length e"
    by (auto simp: elementLags_def)
  have eb: "elem ?b = elem s" "\<not> elementIsContainer ?b"
    using ed lag by (simp_all add: writeNative_def setNativeEditorValue_def trace_def elementLags_def)
  have ge: "getElementValue ?b = L" using L eb by (simp add: getElementValue_def)
  have ne: "getElementValue ?b \<noteq> cleanValue True ?b"
    using L(2) w(2) by (auto simp: ge cl)
  have lt: "callChangeCount ?b < SAFE_COUNT_CHANGE_CALL" using c qb(4) by simp
  from syncValues_quiet_fire[OF qb(1,2) edb ne lt, of "setEditorValue n" "execCommand n"]
  obtain u where u: "syncValues (setEditorValue n) (execCommand n) ?b
          = fireChange (setEditorValue n) (execCommand n) (JStr (cleanValue True ?b))
              (JStr (getElementValue ?b)) u"
    "frame ?b u" "editor u = editor ?b" "callChangeCount u = callChangeCount ?b + 1"
    "elem u = elem (writeElement (cleanValue True ?b) ?b)" by blast
  have "elem_value (elem u) = Some (e @ w)"
    using u(5) eb L by (simp add: writeElement_def cl)
  then have "elementLags u (e @ w)"
    using lb u(2,3) by (simp add: elementLags_def frame_def)
  moreover have "noValueHandlers u \<and> handlers u ''change'' = [twiceCallback]"
    using u(2) qb(3) q h by (simp add: frame_def noValueHandlers_def)
  ultimately show ?thesis using unf u(1,4) qb(4) by auto
qed


lemma elementLags_native: "elementLags s e \<Longrightarrow> getNativeEditorValue s = e"
  by (simp add: elementLags_def getNativeEditorValue_def)

lemma elementLags_count: "elementLags (s\<lparr>callChangeCount := c\<rparr>) e = elementLags s e"
  by (simp add: elementLags_def)

lemma plainText_xy: "plainText ''x''" "plainText ''y''"
  by (simp_all add: plainText_def)

lemma twice_last_level:
  assumes q: "noValueHandlers s" and h: "handlers s ''change'' = [twiceCallback]"
    and lag: "elementLags s e" and c: "callChangeCount s = 9"
    and w: "plainText w" "w \<noteq> []"
  shows "setEditorValue n (JStr (e @ w)) s = None \<or>
    (\<exists>t e'. setEditorValue n (JStr (e @ w)) s = Some (Ok Undefined t)
       \<and> noValueHandlers t \<and> handlers t ''change'' = [twiceCallback]
       \<and> elementLags t e' \<and> callChangeCount t = 0)"
proof (cases n)
  case 0
  then show ?thesis by simp
next
  case (Suc m)
  have c': "callChangeCount s < SAFE_COUNT_CHANGE_CALL" using c by (simp add: SAFE_COUNT_CHANGE_CALL_def)
  from twice_fires[OF q h lag c' w, of m]
  obtain u nv ov where u: "setEditorValue (Suc m) (JStr (e @ w)) s
            = fireChange (setEditorValue m) (execCommand m) nv ov u"
    "noValueHandlers u" "handlers u ''change'' = [twiceCallback]"
    "elementLags u (e @ w)" "callChangeCount u = callChangeCount s + 1" by blast
  let ?s1 = "trace (Called ''twice'' [nv, ov]) (trace (Fired ''change'' [nv, ov] Undefined) u)"
  have s1: "noValueHandlers ?s1" "handlers ?s1 ''change'' = [twiceCallback]"
    "elementLags ?s1 (e @ w)" "SAFE_COUNT_CHANGE_CALL \<le> callChangeCount ?s1"
    using u(2,3,4,5) c
    by (simp_all add: elementLags_trace SAFE_COUNT_CHANGE_CALL_def) (simp_all add: trace_def noValueHandlers_def)
  have n1: "getNativeEditorValue ?s1 = e @ w" using s1(3) by (rule elementLags_native)
  show ?thesis
  proof (cases m)
    case 0
    then show ?thesis using Suc u(1) fireChange_twice[OF u(3), of "setEditorValue m" "execCommand m" nv ov]
      by simp
  next
    case (Suc k)
    from twice_blocked[OF s1(1,2,3,4) plainText_xy(1), of k]
    obtain t where t: "setEditorValue (Suc k) (JStr ((e @ w) @ ''x'')) ?s1 = Some (Ok Undefined t)"
      "noValueHandlers t" "handlers t ''change'' = [twiceCallback]"
      "elementLags t ((e @ w) @ ''x'')" "callChangeCount t = callChangeCount ?s1" by blast
    have t4: "SAFE_COUNT_CHANGE_CALL \<le> callChangeCount t" using t(5) s1(4) by simp
    have n2: "getNativeEditorValue t = (e @ w) @ ''x''" using t(4) by (rule elementLags_native)
    from twice_blocked[OF t(2,3,4) t4 plainText_xy(2), of k]
    obtain t' where t': "setEditorValue (Suc k) (JStr (((e @ w) @ ''x'') @ ''y'')) t = Some (Ok Undefined t')"
      "noValueHandlers t'" "handlers t' ''change'' = [twiceCallback]"
      "elementLags t' (((e @ w) @ ''x'') @ ''y'')" by blast
    have "fireChange (setEditorValue m) (execCommand m) nv ov u
            = Some (Ok Undefined (t'\<lparr>callChangeCount := 0\<rparr>))"
      unfolding fireChange_twice[OF u(3)] Let_def n1 Suc t(1) using t'(1) n2 by simp
    moreover have "noValueHandlers (t'\<lparr>callChangeCount := 0\<rparr>)"
      "handlers (t'\<lparr>callChangeCount := 0\<rparr>) ''change'' = [twiceCallback]"
      "elementLags (t'\<lparr>callChangeCount := 0\<rparr>) (((e @ w) @ ''x'') @ ''y'')"
      using t'(2,3,4) by (simp_all add: elementLags_count noValueHandlers_def)
    ultimately show ?thesis using \<open>n = Suc m\<close> u(1) by auto
  qed
qed

lemma twice_diverges:
  "noValueHandlers s \<Longrightarrow> handlers s ''change'' = [twiceCallback] \<Longrightarrow> elementLags s e
     \<Longrightarrow> callChangeCount s \<le> 8 \<Longrightarrow> plainText w \<Longrightarrow> w \<noteq> []
     \<Longrightarrow> setEditorValue n (JStr (e @ w)) s = None"
proof (induction n arbitrary: s e w)
  case 0
  then show ?case by simp
next
  case (Suc m)
  have c': "callChangeCount s < SAFE_COUNT_CHANGE_CALL"
    using Suc.prems(4) by (simp add: SAFE_COUNT_CHANGE_CALL_def)
  from twice_fires[OF Suc.prems(1,2,3) c' Suc.prems(5,6), of m]
  obtain u nv ov where u: "setEditorValue (Suc m) (JStr (e @ w)) s
            = fireChange (setEditorValue m) (execCommand m) nv ov u"
    "noValueHandlers u" "handlers u ''change'' = [twiceCallback]"
    "elementLags u (e @ w)" "callChangeCount u = callChangeCount s + 1" by blast
  let ?s1 = "trace (Called ''twice'' [nv, ov]) (trace (Fired ''change'' [nv, ov] Undefined) u)"
  have s1: "noValueHandlers ?s1" "handlers ?s1 ''change'' = [twiceCallback]"
    "elementLags ?s1 (e @ w)" "callChangeCount ?s1 = callChangeCount s + 1"
    using u(2,3,4,5)
    by (simp_all add: elementLags_trace) (simp_all add: trace_def noValueHandlers_def)
  have n1: "getNativeEditorValue ?s1 = e @ w" using s1(3) by (rule elementLags_native)
  have x: "plainText ''x''" "''x'' \<noteq> []" "plainText ''y''" "''y'' \<noteq> []"
    by (simp_all add: plainText_def)
  show ?case
  proof (cases "callChangeCount s + 1 \<le> 8")
    case True
    then have "setEditorValue m (JStr ((e @ w) @ ''x'')) ?s1 = None"
      using Suc.IH[OF s1(1,2,3) _ x(1,2)] s1(4) by simp
    then show ?thesis unfolding u(1) fireChange_twice[OF u(3)] Let_def n1 by simp
  next
    case False
    then have c9: "callChangeCount ?s1 = 9" using Suc.prems(4) s1(4) by simp
    from twice_last_level[OF s1(1,2,3) c9 x(1,2), of m]
    show ?thesis
    proof
      assume "setEditorValue m (JStr ((e @ w) @ ''x'')) ?s1 = None"
      then show ?thesis unfolding u(1) fireChange_twice[OF u(3)] Let_def n1 by simp
    next
      assume "\<exists>t e'. setEditorValue m (JStr ((e @ w) @ ''x'')) ?s1 = Some (Ok Undefined t)
       \<and> noValueHandlers t \<and> handlers t ''change'' = [twiceCallback]
       \<and> elementLags t e' \<and> callChangeCount t = 0"
      then obtain t e' where t: "setEditorValue m (JStr ((e @ w) @ ''x'')) ?s1 = Some (Ok Undefined t)"
        "noValueHandlers t" "handlers t ''change'' = [twiceCallback]"
        "elementLags t e'" "callChangeCount t = 0" by blast
      have n2: "getNativeEditorValue t = e'" using t(4) by (rule elementLags_native)
      have "setEditorValue m (JStr (e' @ ''y'')) t = None"
        using Suc.IH[OF t(2,3,4) _ x(3,4)] t(5) by simp
      then show ?thesis unfolding u(1) fireChange_twice[OF u(3)] Let_def n1 t(1) using n2 by simp
    qed
  qed
qed

text \<open>
  On \<open>twiceEditor\<close> a call of \<open>setEditorValue\<close> does not return, whatever the fuel.
\<close>

lemma two_calls_per_change_never_return:
  "setEditorValue n (JStr ''a'') twiceEditor = None"
proof -
  have "elementLags twiceEditor []"
    by (simp add: elementLags_def twiceEditor_def freshEditor_def freshPanel_def plainText_def)
  moreover have "noValueHandlers twiceEditor" "handlers twiceEditor ''change'' = [twiceCallback]"
    "callChangeCount twiceEditor \<le> 8"
    by (simp_all add: noValueHandlers_def twiceEditor_def freshEditor_def freshPanel_def)
  ultimately show ?thesis
    using twice_diverges[of twiceEditor "[]" "''a''" n] by (simp add: plainText_def)
qed

section \<open>Custom commands\<close>




lemma foldl_lastDefined:
  "foldl (\<lambda>r x. if x \<noteq> Undefined then x else r) r0 vs
     = (if lastDefined vs \<noteq> Undefined then lastDefined vs else r0)"
  unfolding lastDefined_def
proof (induction vs arbitrary: r0)
  case Nil show ?case by simp
next
  case (Cons x xs)
  show ?case using Cons.IH[of "if x \<noteq> Undefined then x else r0"] Cons.IH[of "if x \<noteq> Undefined then x else Undefined"]
    by auto
qed




lemma calls_trace:
  "calls l (trace e s) = calls l s + (if isCallOf l e then 1 else 0)"
  by (simp add: calls_def trace_def)











text \<open>
  Two handlers registered under different spellings of one name, run through another
  spelling: both are entered, in registration order, and the result is the value of
  the first, the second returning \<open>undefined\<close>.
\<close>

lemma two_handlers_run_in_order:
  "valueOf (execCustomCommands 3 (setEditorValue 1) (execCommand 1) ''BOLD'' (JBool False) JNull
      (registerCommand ''Bold'' (Obj (Callback ''second'' [] Undefined) None)
        (registerCommand ''bold'' (Fn (Callback ''first'' [] (JStr ''one''))) freshEditor)))
     = Some (JStr ''one'')
   \<and> traceOf (execCustomCommands 3 (setEditorValue 1) (execCommand 1) ''BOLD'' (JBool False) JNull
      (registerCommand ''Bold'' (Obj (Callback ''second'' [] Undefined) None)
        (registerCommand ''bold'' (Fn (Callback ''first'' [] (JStr ''one''))) freshEditor)))
     = Some [Called ''first'' [JStr ''bold'', JBool False, JNull],
             Called ''second'' [JStr ''bold'', JBool False, JNull]]"
  by (simp add: execCustomCommands_def registerCommand_def Let_def toLowerCase_def lower_char_def
      freshEditor_def firstTruthy_def truthy_def eval_nat_numeral callbackOf_def runCallback_def
      bindR_def trace_def valueOf_def traceOf_def resState_def)

end
